theory Spec2Isabelle
  imports Complex_Main "HOL-Library.Sublist"
begin

section \<open>Engine objects, console and component elements\<close>

text \<open>
  The engine component object an element holds in \<open>this._component\<close>. Only the
  properties the binding layer reads or writes in the verified methods are kept:
  \<open>component.entity\<close> (null once the engine detached it), \<open>component.enabled\<close>
  and \<open>component.type\<close>.
\<close>

record engine_component =
  c_entity :: "nat option"
  c_enabled :: bool
  c_type :: string

text \<open>Calls into the engine that a method performs, in the order it performs them.\<close>

datatype engine_call =
    AddComponentCall nat string
  | RemoveComponentCall nat string

text \<open>
  \<open>class ComponentElement extends AsyncElement\<close>: the fields set by its constructor.
  Subclasses are record extensions, so every function on the scheme below is the
  inherited method of every subclass.
\<close>

record component_element =
  el_enabled :: bool
  el_component :: "engine_component option"
  el_componentName :: string

record light_component_element = component_element +
  el_type :: string

record script_component_element = component_element +
  observing :: bool

subsection \<open>ComponentElement.disconnectedCallback\<close>

definition disconnectedCallback ::
  "'a component_element_scheme \<Rightarrow> engine_call list
     \<Rightarrow> 'a component_element_scheme \<times> engine_call list" where
  "disconnectedCallback el calls =
     (case el_component el of
        None \<Rightarrow> (el, calls)
      | Some c \<Rightarrow>
          (case c_entity c of
             None \<Rightarrow> (el, calls)
           | Some e \<Rightarrow>
               (el\<lparr>el_component := None\<rparr>,
                calls @ [RemoveComponentCall e (el_componentName el)])))"

text \<open>
  \<open>ScriptComponentElement.disconnectedCallback\<close>, the only override: it disconnects
  its mutation observer and then calls the inherited method.
\<close>

definition ScriptComponentElement_disconnectedCallback ::
  "'a script_component_element_scheme \<Rightarrow> engine_call list
     \<Rightarrow> 'a script_component_element_scheme \<times> engine_call list" where
  "ScriptComponentElement_disconnectedCallback el calls =
     disconnectedCallback (el\<lparr>observing := False\<rparr>) calls"

subsection \<open>ComponentElement.enabled and attributeChangedCallback\<close>

definition set_enabled :: "bool \<Rightarrow> 'a component_element_scheme \<Rightarrow> 'a component_element_scheme" where
  "set_enabled v el =
     (let el' = el\<lparr>el_enabled := v\<rparr> in
      case el_component el' of
        None \<Rightarrow> el'
      | Some c \<Rightarrow> el'\<lparr>el_component := Some (c\<lparr>c_enabled := v\<rparr>)\<rparr>)"

text \<open>
  The new value of an attribute is a string, or null when the attribute was removed
  (\<open>None\<close>); \<open>newValue !== 'false'\<close> is strict inequality with the literal.
\<close>

definition attributeChangedCallback ::
  "string \<Rightarrow> string option \<Rightarrow> string option
     \<Rightarrow> 'a component_element_scheme \<Rightarrow> 'a component_element_scheme" where
  "attributeChangedCallback name oldValue newValue el =
     (if name = ''enabled'' then set_enabled (newValue \<noteq> Some ''false'') el else el)"

subsection \<open>LightComponentElement.type\<close>

definition light_types :: "string list" where
  "light_types = [''directional'', ''omni'', ''spot'']"

definition invalid_light_type_warning :: "string \<Rightarrow> string \<Rightarrow> string" where
  "invalid_light_type_warning v t =
     ''Invalid light type '' @ [CHR 0x27] @ v @ [CHR 0x27] @ '', using default type ''
       @ [CHR 0x27] @ t @ [CHR 0x27] @ ''.''"

definition set_type ::
  "string \<Rightarrow> 'a light_component_element_scheme \<Rightarrow> string list
     \<Rightarrow> 'a light_component_element_scheme \<times> string list" where
  "set_type v el console =
     (if v \<notin> set light_types
      then (el, console @ [invalid_light_type_warning v (el_type el)])
      else
        (let el' = el\<lparr>el_type := v\<rparr> in
         case el_component el' of
           None \<Rightarrow> (el', console)
         | Some c \<Rightarrow> (el'\<lparr>el_component := Some (c\<lparr>c_type := v\<rparr>)\<rparr>, console)))"

section \<open>Asset elements\<close>

text \<open>
  \<open>String.prototype.split\<close> with a one-character separator: the pieces between the
  occurrences of the separator, empty pieces included; the empty string gives one
  empty piece.
\<close>

fun js_split :: "char \<Rightarrow> string \<Rightarrow> string list" where
  "js_split sep [] = [ [] ]"
| "js_split sep (c # cs) =
     (if c = sep then [] # js_split sep cs
      else (case js_split sep cs of
              [] \<Rightarrow> [ [c] ]
            | w # ws \<Rightarrow> (c # w) # ws))"

definition extToType :: "(string \<times> string) list" where
  "extToType =
     [(''bin'', ''binary''), (''css'', ''css''), (''frag'', ''shader''),
      (''glb'', ''container''), (''glsl'', ''shader''), (''hdr'', ''texture''),
      (''html'', ''html''), (''jpg'', ''texture''), (''js'', ''script''),
      (''json'', ''json''), (''mp3'', ''audio''), (''mjs'', ''script''),
      (''ply'', ''gsplat''), (''png'', ''texture''), (''txt'', ''text''),
      (''vert'', ''shader''), (''webp'', ''texture'')]"

record asset =
  a_name :: string
  a_type :: string
  a_url :: string
  a_preload :: bool

record asset_element =
  attrs :: "string \<rightharpoonup> string"
  el_lazy :: bool
  el_asset :: "asset option"

text \<open>\<open>getAttribute(name) || ''\<close>: null and the empty string both give the empty string.\<close>

definition or_empty :: "string option \<Rightarrow> string" where
  "or_empty v = (case v of None \<Rightarrow> [] | Some s \<Rightarrow> s)"

text \<open>Truthiness of a string-or-null value: null and the empty string are falsy.\<close>

definition truthy :: "string option \<Rightarrow> bool" where
  "truthy v = (case v of None \<Rightarrow> False | Some s \<Rightarrow> s \<noteq> [])"

definition unsupported_asset_warning :: "string \<Rightarrow> string" where
  "unsupported_asset_warning src = ''Unsupported asset type: '' @ src"

text \<open>
  \<open>AssetElement.createAsset\<close>. The extension is the last piece of \<open>src.split('.')\<close>,
  which is never undefined; \<open>extToType.get(..) ?? null\<close> is the map lookup.
\<close>

definition createAsset :: "asset_element \<Rightarrow> string list \<Rightarrow> asset_element \<times> string list" where
  "createAsset el console =
     (let ident = or_empty (attrs el ''id'');
          src = or_empty (attrs el ''src'');
          type0 = attrs el ''type'';
          type1 = (if \<not> truthy type0
                   then map_of extToType (or_empty (Some (last (js_split (CHR ''.'') src))))
                   else type0)
      in case type1 of
           None \<Rightarrow> (el, console @ [unsupported_asset_warning src])
         | Some t \<Rightarrow>
             if t = [] then (el, console @ [unsupported_asset_warning src])
             else (el\<lparr>el_asset := Some \<lparr>a_name = ident, a_type = t, a_url = src,
                                          a_preload = \<not> el_lazy el\<rparr>\<rparr>, console))"

text \<open>
  The asset loop of \<open>AppElement.connectedCallback\<close>: every direct \<open>pc-asset\<close> child
  runs \<open>createAsset\<close>, and its asset, when it has one, is added to \<open>app.assets\<close>.
  The result is the elements after the loop, the registry and the console.
\<close>

fun forEach_assetElements ::
  "asset_element list \<Rightarrow> asset list \<Rightarrow> string list
     \<Rightarrow> asset_element list \<times> asset list \<times> string list" where
  "forEach_assetElements [] registry console = ([], registry, console)"
| "forEach_assetElements (el # els) registry console =
     (case createAsset el console of
        (el', console') \<Rightarrow>
          (case forEach_assetElements els
                  (case el_asset el' of None \<Rightarrow> registry | Some a \<Rightarrow> registry @ [a])
                  console' of
             (els', registry', console'') \<Rightarrow> (el' # els', registry', console'')))"

section \<open>The viewer: wheel zoom\<close>

text \<open>
  A JavaScript number: NaN, an infinity or a finite double, the finite ones as the
  reals they denote. Positive and negative zero are not told apart.
\<close>

datatype number = NaN | NegInf | Finite real | PosInf

text \<open>
  The comparison \<open>a <= b\<close> of two numbers: false as soon as one of them is NaN.
\<close>

fun num_le :: "number \<Rightarrow> number \<Rightarrow> bool" where
  "num_le NaN b = False"
| "num_le a NaN = False"
| "num_le NegInf b = True"
| "num_le a PosInf = True"
| "num_le (Finite x) (Finite y) = (x \<le> y)"
| "num_le a b = False"

text \<open>
  Rounding a real result to a double may give an infinity and never gives NaN. Of the
  rounding function \<open>rnd\<close> only this is used: it is monotone, and it is exact on the
  doubles -1/2, 1/2 and 3/2.
\<close>

definition rounding :: "(real \<Rightarrow> number) \<Rightarrow> bool" where
  "rounding rnd \<longleftrightarrow>
     (\<forall>x. rnd x \<noteq> NaN)
     \<and> (\<forall>x y. x \<le> y \<longrightarrow> num_le (rnd x) (rnd y))
     \<and> rnd (- 1 / 2) = Finite (- 1 / 2)
     \<and> rnd (1 / 2) = Finite (1 / 2)
     \<and> rnd (3 / 2) = Finite (3 / 2)"

fun is_negative :: "number \<Rightarrow> bool" where
  "is_negative NegInf = True"
| "is_negative (Finite x) = (x < 0)"
| "is_negative a = False"

text \<open>Unary minus and \<open>Math.sign\<close>.\<close>

fun num_neg :: "number \<Rightarrow> number" where
  "num_neg NaN = NaN"
| "num_neg NegInf = PosInf"
| "num_neg (Finite x) = Finite (- x)"
| "num_neg PosInf = NegInf"

fun Math_sign :: "number \<Rightarrow> number" where
  "Math_sign NaN = NaN"
| "Math_sign NegInf = Finite (- 1)"
| "Math_sign (Finite x) = Finite (sgn x)"
| "Math_sign PosInf = Finite 1"

text \<open>
  The product: NaN when a factor is NaN or when zero meets an infinity, the rounded
  real product of two finite factors, and otherwise the infinity with the sign of the
  product.
\<close>

fun num_mul :: "(real \<Rightarrow> number) \<Rightarrow> number \<Rightarrow> number \<Rightarrow> number" where
  "num_mul rnd NaN b = NaN"
| "num_mul rnd a NaN = NaN"
| "num_mul rnd (Finite x) (Finite y) = rnd (x * y)"
| "num_mul rnd a b =
     (if a = Finite 0 \<or> b = Finite 0 then NaN
      else if is_negative a = is_negative b then PosInf
      else NegInf)"

text \<open>The difference \<open>a - b\<close>: NaN for two infinities of the same sign.\<close>

fun num_sub :: "(real \<Rightarrow> number) \<Rightarrow> number \<Rightarrow> number \<Rightarrow> number" where
  "num_sub rnd NaN b = NaN"
| "num_sub rnd a NaN = NaN"
| "num_sub rnd (Finite x) (Finite y) = rnd (x - y)"
| "num_sub rnd PosInf PosInf = NaN"
| "num_sub rnd NegInf NegInf = NaN"
| "num_sub rnd PosInf b = PosInf"
| "num_sub rnd NegInf b = NegInf"
| "num_sub rnd (Finite x) PosInf = NegInf"
| "num_sub rnd (Finite x) NegInf = PosInf"

text \<open>\<open>Math.max\<close> and \<open>Math.min\<close> of two numbers: NaN as soon as one of them is NaN.\<close>

definition Math_max :: "number \<Rightarrow> number \<Rightarrow> number" where
  "Math_max a b = (if a = NaN \<or> b = NaN then NaN else if num_le a b then b else a)"

definition Math_min :: "number \<Rightarrow> number \<Rightarrow> number" where
  "Math_min a b = (if a = NaN \<or> b = NaN then NaN else if num_le a b then a else b)"

record frame_scene =
  zoomSpeed :: number
  minDistance :: number
  maxDistance :: number
  targetDistance :: "number option"
  currentDistance :: "number option"
  isWheelActive :: bool
  targetPosition :: "(number \<times> number \<times> number) option"
  renderNextFrame :: bool

text \<open>
  The wheel part of \<open>FrameScene.initialize\<close>. The literal 0.15 is taken as the real
  15/100; nothing below uses more of it than that it lies between -1/2 and 1/2.
\<close>

definition initialize :: "frame_scene \<Rightarrow> frame_scene" where
  "initialize s =
     s\<lparr>zoomSpeed := Finite (15 / 100), minDistance := Finite (1 / 2),
       maxDistance := Finite 50, targetDistance := None, currentDistance := None,
       isWheelActive := False\<rparr>"

text \<open>
  The bounding box of the splat, when \<open>gsplatComponent?.instance?.meshInstance?.aabb\<close>
  is there: the number the engine's \<open>bbox.halfExtents.length()\<close> returns, and the
  centre.
\<close>

record bounding_box =
  halfExtents_length :: number
  center :: "number \<times> number \<times> number"

text \<open>
  \<open>handleWheel\<close>, with the bounding box found in the scene and \<open>event.deltaY\<close>;
  an event that has no such property gives NaN under \<open>Math.sign\<close>, as NaN does.
\<close>

definition handleWheel ::
  "(real \<Rightarrow> number) \<Rightarrow> bounding_box option \<Rightarrow> number \<Rightarrow> frame_scene \<Rightarrow> frame_scene" where
  "handleWheel rnd aabb deltaY s =
     (let s1 = (case targetDistance s of
                  Some _ \<Rightarrow> s
                | None \<Rightarrow>
                    (case aabb of
                       Some bbox \<Rightarrow>
                         (let sceneSize = halfExtents_length bbox;
                              d = num_mul rnd sceneSize (Finite 2)
                          in s\<lparr>currentDistance := Some d, targetDistance := Some d,
                                targetPosition := Some (center bbox)\<rparr>)
                     | None \<Rightarrow>
                         s\<lparr>currentDistance := Some (Finite 5), targetDistance := Some (Finite 5),
                           targetPosition := Some (Finite 0, Finite 0, Finite 0)\<rparr>));
          s2 = s1\<lparr>isWheelActive := True\<rparr>;
          delta = num_mul rnd (num_neg (Math_sign deltaY)) (zoomSpeed s2)
      in case targetDistance s2 of
           None \<Rightarrow> s2\<lparr>renderNextFrame := True\<rparr>
         | Some td \<Rightarrow>
             s2\<lparr>targetDistance :=
                   Some (Math_max (minDistance s2)
                           (Math_min (maxDistance s2)
                              (num_mul rnd td (num_sub rnd (Finite 1) delta)))),
                 renderNextFrame := True\<rparr>)"

text \<open>A sequence of wheel events, each with the bounding box found when it arrives.\<close>

definition handleWheels ::
  "(real \<Rightarrow> number) \<Rightarrow> (bounding_box option \<times> number) list \<Rightarrow> frame_scene
     \<Rightarrow> frame_scene" where
  "handleWheels rnd evs s = foldl (\<lambda>s ev. handleWheel rnd (fst ev) (snd ev) s) s evs"

text \<open>The constants \<open>initialize\<close> sets; no other code of the viewer assigns them.\<close>

definition wheel_inv :: "frame_scene \<Rightarrow> bool" where
  "wheel_inv s \<longleftrightarrow>
     minDistance s = Finite (1 / 2) \<and> maxDistance s = Finite 50
     \<and> zoomSpeed s = Finite (15 / 100)"

section \<open>The viewer: entering and leaving AR\<close>

type_synonym color = "real \<times> real \<times> real \<times> real"

text \<open>
  The part of the engine scene that \<open>SkyElement.type\<close> writes: \<open>scene.sky.type\<close>
  and the \<open>enabled\<close> flag of the skybox layer, when the layer exists.
\<close>

record sky_scene =
  scene_sky_type :: "string option"
  skybox_layer_enabled :: "bool option"

text \<open>
  A \<open>pc-sky\<close> element: the property \<open>this._type\<close> (a string, or null once the
  attribute callback has passed null on), the \<open>type\<close> attribute of the markup and
  \<open>this._scene\<close>.
\<close>

record sky_element =
  sky_type :: "string option"
  sky_type_attribute :: "string option"
  sky_scene :: "sky_scene option"

definition SkyElement_set_type :: "string option \<Rightarrow> sky_element \<Rightarrow> sky_element" where
  "SkyElement_set_type v el =
     (let el' = el\<lparr>sky_type := v\<rparr> in
      case sky_scene el' of
        None \<Rightarrow> el'
      | Some sc \<Rightarrow>
          el'\<lparr>sky_scene :=
                Some (sc\<lparr>scene_sky_type := v,
                         skybox_layer_enabled :=
                           (case skybox_layer_enabled sc of
                              None \<Rightarrow> None
                            | Some _ \<Rightarrow> Some (v \<noteq> Some ''none''))\<rparr>)\<rparr>)"

text \<open>The \<open>type\<close> case of \<open>SkyElement.attributeChangedCallback\<close>.\<close>

definition SkyElement_attributeChangedCallback ::
  "string \<Rightarrow> string option \<Rightarrow> string option \<Rightarrow> sky_element \<Rightarrow> sky_element" where
  "SkyElement_attributeChangedCallback name oldValue newValue el =
     (if name = ''type'' then SkyElement_set_type newValue el else el)"

text \<open>
  \<open>sky.removeAttribute('type')\<close>: the browser removes the attribute and runs the
  callback with a null new value; removing an attribute that is not there does nothing.
\<close>

definition removeAttribute_type :: "sky_element \<Rightarrow> sky_element" where
  "removeAttribute_type el =
     (case sky_type_attribute el of
        None \<Rightarrow> el
      | Some old \<Rightarrow>
          SkyElement_attributeChangedCallback ''type'' (Some old) None
            (el\<lparr>sky_type_attribute := None\<rparr>))"

text \<open>
  The state the two handlers touch: \<open>app.xr.type\<close>, \<open>app.xr.camera\<close> (an entity,
  named by a number), the clear colour of every camera entity, \<open>app.autoRender\<close>, the
  element \<open>document.querySelector('pc-sky')\<close> finds, and the three variables of the
  enclosing closure: \<open>cameraEntity\<close>, \<open>skyType\<close> and \<open>clearColor\<close>.
\<close>

record viewer =
  xr_type :: "string option"
  xr_camera :: nat
  camera_clearColor :: "nat \<Rightarrow> color"
  autoRender :: bool
  sky :: "sky_element option"
  cameraEntity :: "nat option"
  skyType :: "string option"
  clearColor :: color

datatype js_error = TypeError

definition xr_on_start :: "viewer \<Rightarrow> viewer" where
  "xr_on_start v =
     (if xr_type v = Some ''immersive-ar'' then
        (let cam = xr_camera v;
             v1 = v\<lparr>cameraEntity := Some cam, clearColor := camera_clearColor v cam\<rparr>;
             v2 = v1\<lparr>camera_clearColor := (camera_clearColor v1)(cam := (0, 0, 0, 0))\<rparr>;
             v3 = (case sky v2 of
                     None \<Rightarrow> v2
                   | Some s \<Rightarrow>
                       if sky_type s \<noteq> Some ''none''
                       then v2\<lparr>skyType := sky_type s,
                               sky := Some (SkyElement_set_type (Some ''none'') s)\<rparr>
                       else v2)
         in v3\<lparr>autoRender := True\<rparr>)
      else v)"

definition xr_on_end :: "viewer \<Rightarrow> js_error + viewer" where
  "xr_on_end v =
     (if xr_type v = Some ''immersive-ar'' then
        (case cameraEntity v of
           None \<Rightarrow> Inl TypeError
         | Some cam \<Rightarrow>
             (let v1 = v\<lparr>camera_clearColor := (camera_clearColor v)(cam := clearColor v)\<rparr>;
                  v2 = (case sky v1 of
                          None \<Rightarrow> v1
                        | Some s \<Rightarrow>
                            if truthy (skyType v1)
                            then v1\<lparr>sky := Some (SkyElement_set_type (skyType v1) s),
                                    skyType := None\<rparr>
                            else v1\<lparr>sky := Some (removeAttribute_type s)\<rparr>)
              in Inr (v2\<lparr>autoRender := False\<rparr>)))
      else Inr v)"

text \<open>Entering and then leaving; the sky type of a viewer, when it has a sky.\<close>

definition xr_round_trip :: "viewer \<Rightarrow> js_error + viewer" where
  "xr_round_trip v = xr_on_end (xr_on_start v)"

definition viewer_sky_type :: "viewer \<Rightarrow> string option option" where
  "viewer_sky_type v = map_option sky_type (sky v)"

text \<open>The \<open>type\<close> attribute of the sky element of a viewer, when it has a sky.\<close>

definition viewer_sky_type_attribute :: "viewer \<Rightarrow> string option option" where
  "viewer_sky_type_attribute v = map_option sky_type_attribute (sky v)"

text \<open>
  Whether entry saves the type of a sky element and exit assigns it back: the type is
  not 'none' and is truthy.
\<close>

definition sky_type_saved :: "sky_element \<Rightarrow> bool" where
  "sky_type_saved s \<longleftrightarrow> truthy (sky_type s) \<and> sky_type s \<noteq> Some ''none''"

section \<open>Attribute parsers\<close>

text \<open>
  \<open>CSS_COLORS\<close> is an object literal, so \<open>CSS_COLORS[key]\<close> finds the properties the
  literal inherits from \<open>Object.prototype\<close> as well as its own. An own property is a
  hex string; an inherited one is a function or an object, never a string.
\<close>

datatype property_value = StringValue string | ObjectPrototypeMember string

definition Object_prototype_keys :: "string list" where
  "Object_prototype_keys =
     [''constructor'', ''__proto__'', ''__defineGetter__'', ''__defineSetter__'',
      ''__lookupGetter__'', ''__lookupSetter__'', ''hasOwnProperty'', ''isPrototypeOf'',
      ''propertyIsEnumerable'', ''toLocaleString'', ''toString'', ''valueOf'']"

definition CSS_COLORS :: "(string \<times> string) list" where
  "CSS_COLORS =
     [(''aliceblue'', ''#f0f8ff''), (''antiquewhite'', ''#faebd7''), (''aqua'', ''#00ffff''),
      (''aquamarine'', ''#7fffd4''), (''azure'', ''#f0ffff''), (''beige'', ''#f5f5dc''),
      (''bisque'', ''#ffe4c4''), (''black'', ''#000000''), (''blanchedalmond'', ''#ffebcd''),
      (''blue'', ''#0000ff''), (''blueviolet'', ''#8a2be2''), (''brown'', ''#a52a2a''),
      (''burlywood'', ''#deb887''), (''cadetblue'', ''#5f9ea0''),
      (''chartreuse'', ''#7fff00''), (''chocolate'', ''#d2691e''), (''coral'', ''#ff7f50''),
      (''cornflowerblue'', ''#6495ed''), (''cornsilk'', ''#fff8dc''),
      (''crimson'', ''#dc143c''), (''cyan'', ''#00ffff''), (''darkblue'', ''#00008b''),
      (''darkcyan'', ''#008b8b''), (''darkgoldenrod'', ''#b8860b''),
      (''darkgray'', ''#a9a9a9''), (''darkgreen'', ''#006400''), (''darkgrey'', ''#a9a9a9''),
      (''darkkhaki'', ''#bdb76b''), (''darkmagenta'', ''#8b008b''),
      (''darkolivegreen'', ''#556b2f''), (''darkorange'', ''#ff8c00''),
      (''darkorchid'', ''#9932cc''), (''darkred'', ''#8b0000''),
      (''darksalmon'', ''#e9967a''), (''darkseagreen'', ''#8fbc8f''),
      (''darkslateblue'', ''#483d8b''), (''darkslategray'', ''#2f4f4f''),
      (''darkslategrey'', ''#2f4f4f''), (''darkturquoise'', ''#00ced1''),
      (''darkviolet'', ''#9400d3''), (''deeppink'', ''#ff1493''),
      (''deepskyblue'', ''#00bfff''), (''dimgray'', ''#696969''), (''dimgrey'', ''#696969''),
      (''dodgerblue'', ''#1e90ff''), (''firebrick'', ''#b22222''),
      (''floralwhite'', ''#fffaf0''), (''forestgreen'', ''#228b22''),
      (''fuchsia'', ''#ff00ff''), (''gainsboro'', ''#dcdcdc''), (''ghostwhite'', ''#f8f8ff''),
      (''gold'', ''#ffd700''), (''goldenrod'', ''#daa520''), (''gray'', ''#808080''),
      (''green'', ''#008000''), (''greenyellow'', ''#adff2f''), (''grey'', ''#808080''),
      (''honeydew'', ''#f0fff0''), (''hotpink'', ''#ff69b4''), (''indianred'', ''#cd5c5c''),
      (''indigo'', ''#4b0082''), (''ivory'', ''#fffff0''), (''khaki'', ''#f0e68c''),
      (''lavender'', ''#e6e6fa''), (''lavenderblush'', ''#fff0f5''),
      (''lawngreen'', ''#7cfc00''), (''lemonchiffon'', ''#fffacd''),
      (''lightblue'', ''#add8e6''), (''lightcoral'', ''#f08080''),
      (''lightcyan'', ''#e0ffff''), (''lightgoldenrodyellow'', ''#fafad2''),
      (''lightgray'', ''#d3d3d3''), (''lightgreen'', ''#90ee90''),
      (''lightgrey'', ''#d3d3d3''), (''lightpink'', ''#ffb6c1''),
      (''lightsalmon'', ''#ffa07a''), (''lightseagreen'', ''#20b2aa''),
      (''lightskyblue'', ''#87cefa''), (''lightslategray'', ''#778899''),
      (''lightslategrey'', ''#778899''), (''lightsteelblue'', ''#b0c4de''),
      (''lightyellow'', ''#ffffe0''), (''lime'', ''#00ff00''), (''limegreen'', ''#32cd32''),
      (''linen'', ''#faf0e6''), (''magenta'', ''#ff00ff''), (''maroon'', ''#800000''),
      (''mediumaquamarine'', ''#66cdaa''), (''mediumblue'', ''#0000cd''),
      (''mediumorchid'', ''#ba55d3''), (''mediumpurple'', ''#9370db''),
      (''mediumseagreen'', ''#3cb371''), (''mediumslateblue'', ''#7b68ee''),
      (''mediumspringgreen'', ''#00fa9a''), (''mediumturquoise'', ''#48d1cc''),
      (''mediumvioletred'', ''#c71585''), (''midnightblue'', ''#191970''),
      (''mintcream'', ''#f5fffa''), (''mistyrose'', ''#ffe4e1''), (''moccasin'', ''#ffe4b5''),
      (''navajowhite'', ''#ffdead''), (''navy'', ''#000080''), (''oldlace'', ''#fdf5e6''),
      (''olive'', ''#808000''), (''olivedrab'', ''#6b8e23''), (''orange'', ''#ffa500''),
      (''orangered'', ''#ff4500''), (''orchid'', ''#da70d6''),
      (''palegoldenrod'', ''#eee8aa''), (''palegreen'', ''#98fb98''),
      (''paleturquoise'', ''#afeeee''), (''palevioletred'', ''#db7093''),
      (''papayawhip'', ''#ffefd5''), (''peachpuff'', ''#ffdab9''), (''peru'', ''#cd853f''),
      (''pink'', ''#ffc0cb''), (''plum'', ''#dda0dd''), (''powderblue'', ''#b0e0e6''),
      (''purple'', ''#800080''), (''rebeccapurple'', ''#663399''), (''red'', ''#ff0000''),
      (''rosybrown'', ''#bc8f8f''), (''royalblue'', ''#4169e1''),
      (''saddlebrown'', ''#8b4513''), (''salmon'', ''#fa8072''),
      (''sandybrown'', ''#f4a460''), (''seagreen'', ''#2e8b57''), (''seashell'', ''#fff5ee''),
      (''sienna'', ''#a0522d''), (''silver'', ''#c0c0c0''), (''skyblue'', ''#87ceeb''),
      (''slateblue'', ''#6a5acd''), (''slategray'', ''#708090''),
      (''slategrey'', ''#708090''), (''snow'', ''#fffafa''), (''springgreen'', ''#00ff7f''),
      (''steelblue'', ''#4682b4''), (''tan'', ''#d2b48c''), (''teal'', ''#008080''),
      (''thistle'', ''#d8bfd8''), (''tomato'', ''#ff6347''), (''turquoise'', ''#40e0d0''),
      (''violet'', ''#ee82ee''), (''wheat'', ''#f5deb3''), (''white'', ''#ffffff''),
      (''whitesmoke'', ''#f5f5f5''), (''yellow'', ''#ffff00''),
      (''yellowgreen'', ''#9acd32'')]"

definition CSS_COLORS_get :: "string \<Rightarrow> property_value option" where
  "CSS_COLORS_get key =
     (case map_of CSS_COLORS key of
        Some hex \<Rightarrow> Some (StringValue hex)
      | None \<Rightarrow>
          if key \<in> set Object_prototype_keys then Some (ObjectPrototypeMember key) else None)"

text \<open>\<open>if (hexColor)\<close>: undefined and the empty string are falsy, any object is truthy.\<close>

definition property_truthy :: "property_value option \<Rightarrow> bool" where
  "property_truthy v =
     (case v of
        None \<Rightarrow> False
      | Some (StringValue s) \<Rightarrow> s \<noteq> []
      | Some (ObjectPrototypeMember _) \<Rightarrow> True)"

text \<open>\<open>String.prototype.toLowerCase\<close> on ASCII strings.\<close>

definition toLowerCase :: "string \<Rightarrow> string" where
  "toLowerCase s =
     map (\<lambda>c. case map_of (zip ''ABCDEFGHIJKLMNOPQRSTUVWXYZ'' ''abcdefghijklmnopqrstuvwxyz'') c of
                None \<Rightarrow> c
              | Some l \<Rightarrow> l) s"

definition startsWith :: "string \<Rightarrow> string \<Rightarrow> bool" where
  "startsWith s p = (take (length p) s = p)"

text \<open>
  What \<open>parseColor\<close> returns: \<open>new Color().fromString(v)\<close> or \<open>new Color(components)\<close>.
  The engine's \<open>Color\<close> is not part of the repository, so the result keeps the call
  and its argument. \<open>Number\<close> is the conversion of a string to a number and is a
  parameter of the parsers.
\<close>

datatype 'n color_value = FromString property_value | NewColor "'n list"

definition parseColor :: "(string \<Rightarrow> 'n) \<Rightarrow> string \<Rightarrow> 'n color_value" where
  "parseColor Number v =
     (let hexColor = CSS_COLORS_get (toLowerCase v) in
      case (if property_truthy hexColor then hexColor else None) of
        Some h \<Rightarrow> FromString h
      | None \<Rightarrow>
          if startsWith v ''#'' then FromString (StringValue v)
          else NewColor (map Number (js_split (CHR '' '') v)))"

text \<open>
  The engine's \<open>Vec3\<close> constructor, as its interface documents it: an array of
  length 3 populates the three components; any other first argument is stored in
  \<open>x\<close> as it is, and \<open>y\<close> and \<open>z\<close> keep their default 0.
\<close>

datatype 'n vec3_component = Num 'n | ArrayValue "'n list"

datatype 'n vec3 = Vec3 "'n vec3_component" "'n vec3_component" "'n vec3_component"

definition new_Vec3 :: "'n::zero list \<Rightarrow> 'n vec3" where
  "new_Vec3 a =
     (if length a = 3 then Vec3 (Num (a ! 0)) (Num (a ! 1)) (Num (a ! 2))
      else Vec3 (ArrayValue a) (Num 0) (Num 0))"

definition parseVec3 :: "(string \<Rightarrow> 'n::zero) \<Rightarrow> string \<Rightarrow> 'n vec3" where
  "parseVec3 Number v = new_Vec3 (map Number (js_split (CHR '' '') v))"

definition sky_type_survives :: "sky_element \<Rightarrow> bool" where
  "sky_type_survives s \<longleftrightarrow>
     (truthy (sky_type s) \<and> sky_type s \<noteq> Some ''none'')
     \<or> (sky_type s = Some ''none'' \<and> sky_type_attribute s = None)
     \<or> (sky_type s = None \<and> sky_type_attribute s \<noteq> None)"

section \<open>Connecting a component element\<close>

datatype component_kind =
    Listener | Camera | Collision | Element | Splat | Light | Particles
  | Render | RigidBody | Screen | Script | Sound

text \<open>
  Where the promise returned by \<open>connectedCallback\<close> stands: suspended at one of its
  awaits (of the application's readiness, of the entity's readiness inside
  \<open>addComponent\<close>, of the promise \<open>addComponent\<close> returned), fulfilled, or rejected
  by an exception.
\<close>

datatype phase =
    NotConnected | AwaitApp | AwaitEntity | AwaitAddComponent | Completed | Rejected js_error

text \<open>
  A component element together with what its connection reads from outside:
  \<^item> whether \<open>closestApp\<close> and \<open>closestEntity\<close> find an element;
  \<^item> whether the readiness promises of those two elements are resolved, and the
    \<open>entity\<close> field of the entity element;
  \<^item> whether \<open>getInitialComponentData\<close> throws (that of \<open>pc-element\<close> does when its
    font asset is missing), the value the engine's \<open>addComponent\<close> returns, whether
    \<open>component._text._material\<close> exists, and the names of the \<open>pc-script\<close> children;
  \<^item> the element's own readiness promise and the events it dispatched.
\<close>

record connection = component_element +
  kind :: component_kind
  closestApp :: bool
  closestEntity :: bool
  app_ready :: bool
  entity_ready :: bool
  entity_entity :: "nat option"
  initialData_throws :: bool
  engine_addComponent :: "engine_component option"
  text_material :: bool
  scripts :: "string list"
  phase :: phase
  ready :: bool
  dispatched :: "string list"
  engine_calls :: "engine_call list"
  created_scripts :: "string list"

text \<open>\<open>AsyncElement._onReady\<close>.\<close>

definition onReady :: "connection \<Rightarrow> connection" where
  "onReady w = w\<lparr>ready := True, dispatched := dispatched w @ [''ready'']\<rparr>"

text \<open>
  \<open>initComponent\<close>: empty in \<open>ComponentElement\<close>, overridden by \<open>pc-element\<close>, which
  dereferences \<open>this.component\<close>, and by \<open>pc-scripts\<close>, whose \<open>createScript\<close> returns
  at once when \<open>this.component\<close> is null.
\<close>

definition initComponent :: "connection \<Rightarrow> js_error + connection" where
  "initComponent w =
     (case kind w of
        Element \<Rightarrow>
          (case el_component w of
             None \<Rightarrow> Inl TypeError
           | Some c \<Rightarrow> if text_material w then Inr w else Inl TypeError)
      | Script \<Rightarrow>
          (case el_component w of
             None \<Rightarrow> Inr w
           | Some c \<Rightarrow> Inr (w\<lparr>created_scripts := created_scripts w @ scripts w\<rparr>))
      | _ \<Rightarrow> Inr w)"

text \<open>
  \<open>connectedCallback\<close> up to its first await: \<open>this.closestApp?.ready()\<close> is
  evaluated and the function suspends.
\<close>

definition connectedCallback :: "connection \<Rightarrow> connection" where
  "connectedCallback w = w\<lparr>phase := AwaitApp\<rparr>"

text \<open>
  \<open>addComponent\<close> up to its await: with an entity element it suspends on
  \<open>entityElement.ready()\<close>; without one it returns, and the caller awaits the
  fulfilled promise.
\<close>

definition addComponent :: "connection \<Rightarrow> connection" where
  "addComponent w =
     (if closestEntity w then w\<lparr>phase := AwaitEntity\<rparr>
      else w\<lparr>phase := AwaitAddComponent\<rparr>)"

text \<open>
  \<open>addComponent\<close> after its await: \<open>getInitialComponentData\<close>, then
  \<open>entityElement.entity.addComponent\<close>, which throws when \<open>entity\<close> is null; the
  value the engine returns is stored in \<open>this._component\<close>.
\<close>

definition addComponent_resumed :: "connection \<Rightarrow> connection" where
  "addComponent_resumed w =
     (if initialData_throws w then w\<lparr>phase := Rejected TypeError\<rparr>
      else
        (case entity_entity w of
           None \<Rightarrow> w\<lparr>phase := Rejected TypeError\<rparr>
         | Some e \<Rightarrow>
             w\<lparr>el_component := engine_addComponent w,
               engine_calls := engine_calls w @ [AddComponentCall e (el_componentName w)],
               phase := AwaitAddComponent\<rparr>))"

text \<open>\<open>connectedCallback\<close> after \<open>await this.addComponent()\<close>.\<close>

definition connectedCallback_resumed :: "connection \<Rightarrow> connection" where
  "connectedCallback_resumed w =
     (case initComponent w of
        Inl err \<Rightarrow> w\<lparr>phase := Rejected err\<rparr>
      | Inr w' \<Rightarrow> (onReady w')\<lparr>phase := Completed\<rparr>)"

text \<open>
  The continuation the event loop runs next. An await goes on only when the awaited
  promise is resolved; awaiting \<open>undefined\<close> (no application element) goes on at once.
\<close>

definition resume :: "connection \<Rightarrow> connection" where
  "resume w =
     (case phase w of
        AwaitApp \<Rightarrow> if closestApp w \<and> \<not> app_ready w then w else addComponent w
      | AwaitEntity \<Rightarrow> if \<not> entity_ready w then w else addComponent_resumed w
      | AwaitAddComponent \<Rightarrow> connectedCallback_resumed w
      | _ \<Rightarrow> w)"

text \<open>
  What can happen around the element: the application element calls \<open>_onReady\<close>;
  the entity element runs \<open>createEntity\<close>, \<open>buildHierarchy\<close> (which returns before
  \<open>_onReady\<close> when its \<open>entity\<close> is null) or \<open>disconnectedCallback\<close>; the event loop
  resumes the element. A resolved promise stays resolved.
\<close>

datatype step = AppOnReady | EntityCreate nat | EntityBuildHierarchy | EntityDisconnect | Resume

fun do_step :: "connection \<Rightarrow> step \<Rightarrow> connection" where
  "do_step w AppOnReady = w\<lparr>app_ready := True\<rparr>"
| "do_step w (EntityCreate e) = w\<lparr>entity_entity := Some e\<rparr>"
| "do_step w EntityBuildHierarchy =
     (case entity_entity w of None \<Rightarrow> w | Some e \<Rightarrow> w\<lparr>entity_ready := True\<rparr>)"
| "do_step w EntityDisconnect = w\<lparr>entity_entity := None\<rparr>"
| "do_step w Resume = resume w"

definition run :: "step list \<Rightarrow> connection \<Rightarrow> connection" where
  "run steps w = foldl do_step w steps"




text \<open>
  The invariant of a connection with no entity element, for an element that is not a
  \<open>pc-element\<close>: it never has a component, it is never rejected, and it is ready once
  it has completed.
\<close>

definition entityless :: "connection \<Rightarrow> bool" where
  "entityless w \<longleftrightarrow>
     \<not> closestEntity w \<and> kind w \<noteq> Element \<and> el_component w = None
     \<and> phase w \<in> {AwaitApp, AwaitAddComponent, Completed}
     \<and> (phase w = Completed \<longrightarrow> ready w)"

section \<open>Building the entity hierarchy\<close>

text \<open>
  The document: a tree of elements, each with a tag name and its child elements in
  document order. An element is named by its path, the child indices from the root of
  the document; the \<open>pc-app\<close> element is one of them.
\<close>

datatype dom = Elem string "dom list"

type_synonym path = "nat list"

primrec node_at :: "path \<Rightarrow> dom \<Rightarrow> dom option" where
  "node_at [] d = Some d"
| "node_at (i # p) d =
     (case d of Elem t cs \<Rightarrow> if i < length cs then node_at p (cs ! i) else None)"

definition has_tag :: "string \<Rightarrow> dom \<Rightarrow> path \<Rightarrow> bool" where
  "has_tag tag d p = (case node_at p d of None \<Rightarrow> False | Some (Elem t cs) \<Rightarrow> t = tag)"

text \<open>The paths of a subtree in document order, the root first.\<close>

fun paths :: "dom \<Rightarrow> path list"
  and child_paths :: "nat \<Rightarrow> dom list \<Rightarrow> path list" where
  "paths (Elem t cs) = [] # child_paths 0 cs"
| "child_paths i [] = []"
| "child_paths i (c # cs) = map ((#) i) (paths c) @ child_paths (Suc i) cs"

text \<open>
  \<open>element.querySelectorAll(tag)\<close> for the element at the path \<open>el\<close>: its
  descendants with that tag, in document order.
\<close>

definition querySelectorAll :: "string \<Rightarrow> dom \<Rightarrow> path \<Rightarrow> path list" where
  "querySelectorAll tag d el =
     (case node_at el d of
        None \<Rightarrow> []
      | Some sub \<Rightarrow> map ((@) el) (filter (has_tag tag sub) (tl (paths sub))))"

text \<open>
  \<open>closest(tag)\<close>: the element itself or its nearest ancestor with that tag, up to
  the root of the document. \<open>closestEntity\<close> starts at the parent element and does
  not stop at the \<open>pc-app\<close> element.
\<close>

function closest :: "string \<Rightarrow> dom \<Rightarrow> path \<Rightarrow> path option" where
  "closest tag d p =
     (if has_tag tag d p then Some p
      else if p = [] then None
      else closest tag d (butlast p))"
  by pat_completeness auto
termination
  by (relation "measure (\<lambda>(tag, d, p). length p)") auto

declare closest.simps [simp del]

definition closestEntityElement :: "dom \<Rightarrow> path \<Rightarrow> path option" where
  "closestEntityElement d p = (if p = [] then None else closest ''pc-entity'' d (butlast p))"

text \<open>
  The \<open>entity\<close> fields of the entity elements of the document, those outside the
  application included; the counter naming the next engine entity \<open>new Entity\<close>
  allocates; the application's \<open>_hierarchyReady\<close> flag; and the trace of what
  happened: an entity created for an element, \<open>addChild\<close> on the application root
  or on an entity, \<open>_onReady\<close> of an element.
\<close>

datatype graph_node = AppRoot | EntityNode nat

datatype hierarchy_event = Created path nat | AddChild graph_node nat | Ready path

record app_state =
  entities :: "path \<rightharpoonup> nat"
  next_entity :: nat
  hierarchyReady :: bool
  trace :: "hierarchy_event list"

text \<open>
  \<open>EntityElement.createEntity\<close>; the local transform, tags and pointer listeners it
  sets from the attributes are not part of the state.
\<close>

definition createEntity :: "path \<Rightarrow> app_state \<Rightarrow> app_state" where
  "createEntity p s =
     s\<lparr>entities := (entities s)(p \<mapsto> next_entity s),
       next_entity := Suc (next_entity s),
       trace := trace s @ [Created p (next_entity s)]\<rparr>"

definition parent_node :: "dom \<Rightarrow> (path \<rightharpoonup> nat) \<Rightarrow> path \<Rightarrow> graph_node" where
  "parent_node d m p =
     (case closestEntityElement d p of
        None \<Rightarrow> AppRoot
      | Some q \<Rightarrow> (case m q of None \<Rightarrow> AppRoot | Some pe \<Rightarrow> EntityNode pe))"

definition buildHierarchy :: "dom \<Rightarrow> path \<Rightarrow> app_state \<Rightarrow> app_state" where
  "buildHierarchy d p s =
     (case entities s p of
        None \<Rightarrow> s
      | Some e \<Rightarrow> s\<lparr>trace := trace s @ [AddChild (parent_node d (entities s) p) e, Ready p]\<rparr>)"

text \<open>
  The entity part of \<open>AppElement.connectedCallback\<close> of the \<open>pc-app\<close> element at
  the path \<open>app\<close>: create all entities, then build the hierarchy, both over
  \<open>this.querySelectorAll('pc-entity')\<close>.
\<close>

definition AppElement_connectedCallback :: "dom \<Rightarrow> path \<Rightarrow> app_state \<Rightarrow> app_state" where
  "AppElement_connectedCallback d app s =
     (let entityElements = querySelectorAll ''pc-entity'' d app;
          s1 = foldl (\<lambda>s p. createEntity p s) s entityElements;
          s2 = foldl (\<lambda>s p. buildHierarchy d p s) s1 entityElements
      in s2\<lparr>hierarchyReady := True\<rparr>)"

text \<open>The elements whose \<open>_onReady\<close> ran, in the order it ran.\<close>

fun ready_order :: "hierarchy_event list \<Rightarrow> path list" where
  "ready_order [] = []"
| "ready_order (Ready p # evs) = p # ready_order evs"
| "ready_order (ev # evs) = ready_order evs"

text \<open>\<open>a\<close> occurs in the list, and \<open>b\<close> occurs after the first \<open>a\<close>.\<close>

definition before :: "'a list \<Rightarrow> 'a \<Rightarrow> 'a \<Rightarrow> bool" where
  "before xs a b \<longleftrightarrow> b \<in> set (tl (dropWhile (\<lambda>x. x \<noteq> a) xs))"

section \<open>Concrete inputs\<close>

definition camera_element :: component_element where
  "camera_element =
     \<lparr>el_enabled = True,
      el_component = Some \<lparr>c_entity = Some 7, c_enabled = True, c_type = []\<rparr>,
      el_componentName = ''camera''\<rparr>"

definition spot_light_element :: light_component_element where
  "spot_light_element =
     \<lparr>el_enabled = True,
      el_component = Some \<lparr>c_entity = Some 3, c_enabled = True, c_type = ''spot''\<rparr>,
      el_componentName = ''light'', el_type = ''spot''\<rparr>"

definition unsupported_asset_element :: asset_element where
  "unsupported_asset_element =
     \<lparr>attrs = [''src'' \<mapsto> ''model.GLB''], el_lazy = False, el_asset = None\<rparr>"

definition texture_asset_element :: asset_element where
  "texture_asset_element =
     \<lparr>attrs = [''src'' \<mapsto> ''tex.png'', ''id'' \<mapsto> ''t''], el_lazy = False, el_asset = None\<rparr>"

definition texture_asset :: asset where
  "texture_asset = \<lparr>a_name = ''t'', a_type = ''texture'', a_url = ''tex.png'', a_preload = True\<rparr>"

definition fresh_frame_scene :: frame_scene where
  "fresh_frame_scene =
     \<lparr>zoomSpeed = Finite 0, minDistance = Finite 0, maxDistance = Finite 0,
      targetDistance = None, currentDistance = None, isWheelActive = False,
      targetPosition = None, renderNextFrame = False\<rparr>"

definition nan_bounding_box :: bounding_box where
  "nan_bounding_box = \<lparr>halfExtents_length = NaN, center = (Finite 0, Finite 0, Finite 0)\<rparr>"

definition ar_viewer :: "sky_element \<Rightarrow> viewer" where
  "ar_viewer s =
     \<lparr>xr_type = Some ''immersive-ar'', xr_camera = 0,
      camera_clearColor = (\<lambda>_. (1, 1, 1, 1)), autoRender = False, sky = Some s,
      cameraEntity = None, skyType = None, clearColor = (0, 0, 0, 1)\<rparr>"

definition sky_none_by_attribute :: sky_element where
  "sky_none_by_attribute =
     \<lparr>sky_type = Some ''none'', sky_type_attribute = Some ''none'', sky_scene = None\<rparr>"

definition sky_dome :: sky_element where
  "sky_dome =
     \<lparr>sky_type = Some ''dome'', sky_type_attribute = Some ''dome'', sky_scene = None\<rparr>"


definition entityless_connection :: "component_kind \<Rightarrow> string \<Rightarrow> connection" where
  "entityless_connection k name =
     \<lparr>el_enabled = True, el_component = None, el_componentName = name,
      kind = k, closestApp = True, closestEntity = False,
      app_ready = False, entity_ready = False, entity_entity = None,
      initialData_throws = False, engine_addComponent = None,
      text_material = False, scripts = [], phase = NotConnected, ready = False,
      dispatched = [], engine_calls = [], created_scripts = []\<rparr>"

definition example_children :: "dom list" where
  "example_children =
     [Elem ''pc-asset'' [],
      Elem ''pc-entity'' [Elem ''pc-camera'' [], Elem ''div'' [Elem ''pc-entity'' []]],
      Elem ''pc-entity'' []]"

definition example_document :: dom where
  "example_document = Elem ''body'' [Elem ''pc-entity'' [Elem ''pc-app'' example_children]]"

definition fresh_app_state :: app_state where
  "fresh_app_state =
     \<lparr>entities = [ [0] \<mapsto> 3], next_entity = 10, hierarchyReady = False, trace = []\<rparr>"


section \<open>Disconnecting a component element\<close>

text \<open>
  C2. When the element holds an engine component that is still attached to an entity,
  \<open>disconnectedCallback\<close> makes exactly one engine call, \<open>removeComponent\<close> with the
  element's component name on that entity, and sets the stored component to null;
  run again on the result it changes nothing and makes no engine call. The override
  of \<open>pc-scripts\<close> does the same after disconnecting its observer.
\<close>

theorem disconnectedCallback_removes_once:
  fixes el :: "'a component_element_scheme"
    and sel :: "'b script_component_element_scheme"
  assumes "el_component el = Some c" and "c_entity c = Some e"
    and "el_component sel = Some c'" and "c_entity c' = Some e'"
  shows "disconnectedCallback el calls =
           (el\<lparr>el_component := None\<rparr>,
            calls @ [RemoveComponentCall e (el_componentName el)])
       \<and> disconnectedCallback (el\<lparr>el_component := None\<rparr>)
             (calls @ [RemoveComponentCall e (el_componentName el)]) =
           (el\<lparr>el_component := None\<rparr>,
            calls @ [RemoveComponentCall e (el_componentName el)])
       \<and> ScriptComponentElement_disconnectedCallback sel calls =
           (sel\<lparr>observing := False, el_component := None\<rparr>,
            calls @ [RemoveComponentCall e' (el_componentName sel)])
       \<and> ScriptComponentElement_disconnectedCallback
             (sel\<lparr>observing := False, el_component := None\<rparr>)
             (calls @ [RemoveComponentCall e' (el_componentName sel)]) =
           (sel\<lparr>observing := False, el_component := None\<rparr>,
            calls @ [RemoveComponentCall e' (el_componentName sel)])"
  using assms
  by (simp add: disconnectedCallback_def ScriptComponentElement_disconnectedCallback_def)

theorem disconnectedCallback_removes_once_witness:
  "disconnectedCallback camera_element [] =
     (camera_element\<lparr>el_component := None\<rparr>, [RemoveComponentCall 7 ''camera''])
   \<and> disconnectedCallback (camera_element\<lparr>el_component := None\<rparr>)
        [RemoveComponentCall 7 ''camera''] =
     (camera_element\<lparr>el_component := None\<rparr>, [RemoveComponentCall 7 ''camera''])"
proof -
  have c: "el_component camera_element = Some \<lparr>c_entity = Some 7, c_enabled = True, c_type = []\<rparr>"
    by (simp add: camera_element_def)
  have e: "c_entity \<lparr>c_entity = Some 7, c_enabled = True, c_type = []\<rparr> = Some 7"
    by simp
  let ?s = "component_element.extend camera_element \<lparr>observing = True\<rparr>"
  have c': "el_component ?s = Some \<lparr>c_entity = Some 7, c_enabled = True, c_type = []\<rparr>"
    by (simp add: camera_element_def component_element.defs)
  show ?thesis
    using disconnectedCallback_removes_once [OF c e c' e, of "[]"]
    by (simp add: camera_element_def)
qed

section \<open>The type of a light\<close>

text \<open>
  C4. Assigning a value other than 'directional', 'omni' and 'spot' to the type of a
  \<open>pc-light\<close> element appends one warning to the console and returns the element as
  it was: its stored type, its engine component and the component's type are unchanged.
\<close>

theorem set_type_invalid_changes_nothing:
  fixes el :: "'a light_component_element_scheme"
  assumes "v \<notin> {''directional'', ''omni'', ''spot''}"
  shows "set_type v el console = (el, console @ [invalid_light_type_warning v (el_type el)])"
  using assms by (simp add: set_type_def light_types_def)

theorem set_type_invalid_changes_nothing_witness:
  "set_type ''point'' spot_light_element [] =
     (spot_light_element,
      [''Invalid light type '' @ [CHR 0x27] @ ''point'' @ [CHR 0x27]
         @ '', using default type '' @ [CHR 0x27] @ ''spot'' @ [CHR 0x27] @ ''.''])"
proof -
  have h: "''point'' \<notin> {''directional'', ''omni'', ''spot''}" by simp
  show ?thesis
    using set_type_invalid_changes_nothing [OF h, of spot_light_element "[]"]
    by (simp add: invalid_light_type_warning_def spot_light_element_def)
qed

section \<open>The enabled attribute\<close>

text \<open>
  C7. For every string value \<open>v\<close> of the \<open>enabled\<close> attribute,
  \<open>attributeChangedCallback\<close> sets the element's enabled flag to \<open>v !== 'false'\<close>
  and, when the engine component exists, sets the component's \<open>enabled\<close> to that same
  boolean and changes nothing else of it; so 'False', '0' and the empty string enable
  the component, and only the literal 'false' disables it.
\<close>

theorem attributeChangedCallback_enabled:
  fixes el :: "'a component_element_scheme"
  shows "el_enabled (attributeChangedCallback ''enabled'' old (Some v) el) = (v \<noteq> ''false'')
       \<and> el_component (attributeChangedCallback ''enabled'' old (Some v) el) =
           map_option (\<lambda>c. c\<lparr>c_enabled := (v \<noteq> ''false'')\<rparr>) (el_component el)
       \<and> el_enabled (attributeChangedCallback ''enabled'' old (Some ''False'') el)
       \<and> el_enabled (attributeChangedCallback ''enabled'' old (Some ''0'') el)
       \<and> el_enabled (attributeChangedCallback ''enabled'' old (Some []) el)
       \<and> \<not> el_enabled (attributeChangedCallback ''enabled'' old (Some ''false'') el)"
  by (simp add: attributeChangedCallback_def set_enabled_def Let_def split: option.split)

theorem attributeChangedCallback_enabled_witness:
  "el_component (attributeChangedCallback ''enabled'' None (Some ''0'')
     (camera_element\<lparr>el_enabled := False,
        el_component := Some \<lparr>c_entity = Some 7, c_enabled = False, c_type = []\<rparr>\<rparr>)) =
     Some \<lparr>c_entity = Some 7, c_enabled = True, c_type = []\<rparr>"
  using attributeChangedCallback_enabled
    [of None "''0''" "camera_element\<lparr>el_enabled := False,
        el_component := Some \<lparr>c_entity = Some 7, c_enabled = False, c_type = []\<rparr>\<rparr>"]
  by (simp add: camera_element_def)

section \<open>Assets of unsupported type\<close>

lemma forEach_assetElements_append:
  "forEach_assetElements (xs @ ys) registry console =
     (case forEach_assetElements xs registry console of
        (xs', r1, c1) \<Rightarrow>
          (case forEach_assetElements ys r1 c1 of
             (ys', r2, c2) \<Rightarrow> (xs' @ ys', r2, c2)))"
  by (induction xs arbitrary: registry console) (auto split: prod.splits)

lemma createAsset_unsupported:
  assumes "\<not> truthy (attrs el ''type'')"
    and "last (js_split (CHR ''.'') (or_empty (attrs el ''src''))) \<notin> fst ` set extToType"
  shows "createAsset el console =
           (el, console @ [unsupported_asset_warning (or_empty (attrs el ''src''))])"
proof -
  have "map_of extToType (last (js_split (CHR ''.'') (or_empty (attrs el ''src'')))) = None"
    using assms(2) by (simp add: map_of_eq_None_iff)
  then show ?thesis
    using assms(1) by (simp add: createAsset_def Let_def or_empty_def)
qed

text \<open>
  C3. For a \<open>pc-asset\<close> element with no (or an empty) \<open>type\<close> attribute whose
  \<open>src\<close> ends in an extension that is not a key of \<open>extToType\<close>, \<open>createAsset\<close>
  appends one warning to the console and returns the element unchanged, so an asset
  that was null stays null. The loop of the application setup then goes on: the
  elements before it and after it are processed as they would be without it, nothing
  is added to the registry for it, and no error value exists in the model of the loop.
\<close>

theorem createAsset_unsupported_is_skipped:
  assumes "\<not> truthy (attrs el ''type'')"
    and "last (js_split (CHR ''.'') (or_empty (attrs el ''src''))) \<notin> fst ` set extToType"
    and "el_asset el = None"
  shows "createAsset el console =
           (el, console @ [unsupported_asset_warning (or_empty (attrs el ''src''))])
       \<and> el_asset (fst (createAsset el console)) = None
       \<and> forEach_assetElements (pre @ el # post) registry console =
           (case forEach_assetElements pre registry console of
              (pre', r1, c1) \<Rightarrow>
                (case forEach_assetElements post r1
                        (c1 @ [unsupported_asset_warning (or_empty (attrs el ''src''))]) of
                   (post', r2, c2) \<Rightarrow> (pre' @ el # post', r2, c2)))"
  using createAsset_unsupported [OF assms(1,2)] assms(3)
  by (simp add: forEach_assetElements_append split: prod.splits)

theorem createAsset_unsupported_is_skipped_witness:
  "forEach_assetElements [unsupported_asset_element, texture_asset_element] [] [] =
     ([unsupported_asset_element, texture_asset_element\<lparr>el_asset := Some texture_asset\<rparr>],
      [texture_asset],
      [''Unsupported asset type: model.GLB''])"
proof -
  have h1: "\<not> truthy (attrs unsupported_asset_element ''type'')"
    by (simp add: unsupported_asset_element_def truthy_def)
  have h2: "last (js_split (CHR ''.'') (or_empty (attrs unsupported_asset_element ''src'')))
              \<notin> fst ` set extToType"
    by (simp add: unsupported_asset_element_def or_empty_def extToType_def)
  have h3: "el_asset unsupported_asset_element = None"
    by (simp add: unsupported_asset_element_def)
  have g: "createAsset texture_asset_element [''Unsupported asset type: model.GLB''] =
             (texture_asset_element\<lparr>el_asset := Some texture_asset\<rparr>,
              [''Unsupported asset type: model.GLB''])"
    by (simp add: createAsset_def Let_def texture_asset_element_def texture_asset_def
        or_empty_def truthy_def extToType_def)
  show ?thesis
    using createAsset_unsupported_is_skipped
            [OF h1 h2 h3, of "[]" "[]" "[texture_asset_element]" "[]"] g
    by (simp add: unsupported_asset_warning_def unsupported_asset_element_def or_empty_def)
qed

section \<open>The zoom target distance\<close>

lemma rounding_Finite: "rounding Finite"
  by (simp add: rounding_def)

lemma rounding_between:
  assumes "rounding rnd" and "rnd a = Finite a" and "rnd b = Finite b"
    and "a \<le> x" and "x \<le> b"
  shows "\<exists>d. rnd x = Finite d \<and> a \<le> d \<and> d \<le> b"
proof -
  have mono: "num_le (rnd u) (rnd v)" if "u \<le> v" for u v
    using assms(1) that unfolding rounding_def by blast
  have nn: "rnd x \<noteq> NaN"
    using assms(1) unfolding rounding_def by blast
  have lo: "num_le (Finite a) (rnd x)"
    using mono [OF assms(4)] by (simp only: assms(2))
  have hi: "num_le (rnd x) (Finite b)"
    using mono [OF assms(5)] by (simp only: assms(3))
  show ?thesis
  proof (cases "rnd x")
    case NaN
    with nn show ?thesis by simp
  next
    case NegInf
    with lo show ?thesis by simp
  next
    case (Finite d)
    with lo hi show ?thesis by simp
  next
    case PosInf
    with hi show ?thesis by simp
  qed
qed

lemma rounding_small:
  assumes "rounding rnd" and "\<bar>x\<bar> \<le> 1 / 2"
  shows "\<exists>d. rnd x = Finite d \<and> \<bar>d\<bar> \<le> 1 / 2"
proof -
  have e: "rnd (- 1 / 2) = Finite (- 1 / 2)" "rnd (1 / 2) = Finite (1 / 2)"
    using assms(1) unfolding rounding_def by blast+
  have "- 1 / 2 \<le> x" "x \<le> 1 / 2"
    using assms(2) by linarith+
  from rounding_between [OF assms(1) e this] obtain d
    where "rnd x = Finite d" "- 1 / 2 \<le> d" "d \<le> 1 / 2" by blast
  then have "rnd x = Finite d \<and> \<bar>d\<bar> \<le> 1 / 2" by (simp add: abs_le_iff)
  then show ?thesis ..
qed

lemma rounding_factor:
  assumes "rounding rnd" and "1 / 2 \<le> x" and "x \<le> 3 / 2"
  shows "\<exists>m. rnd x = Finite m \<and> 1 / 2 \<le> m"
proof -
  have e: "rnd (1 / 2) = Finite (1 / 2)" "rnd (3 / 2) = Finite (3 / 2)"
    using assms(1) unfolding rounding_def by blast+
  from rounding_between [OF assms(1) e assms(2,3)] show ?thesis by blast
qed

lemma delta_finite:
  assumes "rounding rnd" and "dy \<noteq> NaN"
  shows "\<exists>d. num_mul rnd (num_neg (Math_sign dy)) (Finite (15 / 100)) = Finite d \<and> \<bar>d\<bar> \<le> 1 / 2"
proof -
  obtain k where k: "num_neg (Math_sign dy) = Finite k" "\<bar>k\<bar> \<le> 1"
    using assms(2) by (cases dy) (auto simp add: sgn_if)
  have "\<bar>k * (15 / 100)\<bar> \<le> 1 * (15 / 100)"
    unfolding abs_mult using k(2) by (intro mult_mono) simp_all
  then have "\<bar>k * (15 / 100)\<bar> \<le> 1 / 2" by linarith
  from rounding_small [OF assms(1) this] show ?thesis
    by (simp only: k(1) num_mul.simps)
qed

lemma factor_finite:
  assumes "rounding rnd" and "\<bar>d\<bar> \<le> 1 / 2"
  shows "\<exists>m. num_sub rnd (Finite 1) (Finite d) = Finite m \<and> 1 / 2 \<le> m"
proof -
  have "1 / 2 \<le> 1 - d" "1 - d \<le> 3 / 2" using assms(2) by linarith+
  from rounding_factor [OF assms(1) this] show ?thesis by (simp only: num_sub.simps)
qed

lemma product_not_NaN:
  assumes "rounding rnd" and "td \<noteq> NaN" and "0 < m"
  shows "num_mul rnd td (Finite m) \<noteq> NaN"
proof (cases td)
  case (Finite t)
  then show ?thesis using assms(1) by (simp add: rounding_def)
qed (use assms in simp_all)

lemma clamp_finite:
  assumes "p \<noteq> NaN"
  shows "\<exists>d. Math_max (Finite (1 / 2)) (Math_min (Finite 50) p) = Finite d
             \<and> 1 / 2 \<le> d \<and> d \<le> 50"
proof (cases p)
  case NaN
  with assms show ?thesis by simp
next
  case NegInf
  then have "Math_max (Finite (1 / 2)) (Math_min (Finite 50) p) = Finite (1 / 2)"
    by (simp add: Math_max_def Math_min_def)
  then show ?thesis by (intro exI [of _ "1 / 2"]) simp
next
  case (Finite x)
  then have "Math_max (Finite (1 / 2)) (Math_min (Finite 50) p) = Finite (max (1 / 2) (min 50 x))"
    by (simp add: Math_max_def Math_min_def max_def min_def)
  then show ?thesis by (intro exI [of _ "max (1 / 2) (min 50 x)"]) simp
next
  case PosInf
  then have "Math_max (Finite (1 / 2)) (Math_min (Finite 50) p) = Finite 50"
    by (simp add: Math_max_def Math_min_def)
  then show ?thesis by (intro exI [of _ 50]) simp
qed

lemma handleWheel_inv: "wheel_inv s \<Longrightarrow> wheel_inv (handleWheel rnd aabb dy s)"
  by (simp add: handleWheel_def wheel_inv_def Let_def split: option.splits)

lemma handleWheels_inv: "wheel_inv s \<Longrightarrow> wheel_inv (handleWheels rnd evs s)"
  unfolding handleWheels_def
  by (induction evs arbitrary: s) (simp_all add: handleWheel_inv)

lemma initialize_inv: "wheel_inv (initialize s)"
  by (simp add: initialize_def wheel_inv_def)

lemma handleWheel_step:
  assumes "wheel_inv s" and "targetDistance s = Some td"
  shows "targetDistance (handleWheel rnd aabb dy s) =
           Some (Math_max (Finite (1 / 2))
                   (Math_min (Finite 50)
                      (num_mul rnd td
                         (num_sub rnd (Finite 1)
                            (num_mul rnd (num_neg (Math_sign dy)) (Finite (15 / 100)))))))"
proof -
  have m: "minDistance s = Finite (1 / 2)" "maxDistance s = Finite 50"
    "zoomSpeed s = Finite (15 / 100)"
    using assms(1) unfolding wheel_inv_def by blast+
  show ?thesis
    by (simp add: handleWheel_def Let_def assms(2) m)
qed

lemma handleWheel_first:
  assumes "wheel_inv s" and "targetDistance s = None"
  shows "targetDistance (handleWheel rnd aabb dy s) =
           Some (Math_max (Finite (1 / 2))
                   (Math_min (Finite 50)
                      (num_mul rnd
                         (case aabb of
                            None \<Rightarrow> Finite 5
                          | Some bbox \<Rightarrow> num_mul rnd (halfExtents_length bbox) (Finite 2))
                         (num_sub rnd (Finite 1)
                            (num_mul rnd (num_neg (Math_sign dy)) (Finite (15 / 100)))))))"
proof -
  have m: "minDistance s = Finite (1 / 2)" "maxDistance s = Finite 50"
    "zoomSpeed s = Finite (15 / 100)"
    using assms(1) unfolding wheel_inv_def by blast+
  show ?thesis
    by (cases aabb) (simp_all add: handleWheel_def Let_def assms(2) m)
qed

lemma clamped_product_finite:
  assumes "rounding rnd" and "td \<noteq> NaN" and "dy \<noteq> NaN"
  shows "\<exists>d. Math_max (Finite (1 / 2))
               (Math_min (Finite 50)
                  (num_mul rnd td
                     (num_sub rnd (Finite 1)
                        (num_mul rnd (num_neg (Math_sign dy)) (Finite (15 / 100)))))) = Finite d
             \<and> 1 / 2 \<le> d \<and> d \<le> 50"
proof -
  obtain dl where dl: "num_mul rnd (num_neg (Math_sign dy)) (Finite (15 / 100)) = Finite dl"
      "\<bar>dl\<bar> \<le> 1 / 2"
    using delta_finite [OF assms(1,3)] by blast
  obtain m where m: "num_sub rnd (Finite 1) (Finite dl) = Finite m" "1 / 2 \<le> m"
    using factor_finite [OF assms(1) dl(2)] by blast
  have "0 < m" using m(2) by linarith
  from product_not_NaN [OF assms(1,2) this] have "num_mul rnd td (Finite m) \<noteq> NaN" .
  from clamp_finite [OF this] show ?thesis
    by (simp only: dl(1) m(1))
qed

lemma handleWheel_range:
  assumes "wheel_inv s" and "rounding rnd" and "dy \<noteq> NaN"
    and "targetDistance s \<noteq> Some NaN"
    and "targetDistance s = None \<longrightarrow> (\<forall>bbox. aabb = Some bbox \<longrightarrow> halfExtents_length bbox \<noteq> NaN)"
  shows "\<exists>d. targetDistance (handleWheel rnd aabb dy s) = Some (Finite d)
             \<and> 1 / 2 \<le> d \<and> d \<le> 50"
proof (cases "targetDistance s")
  case None
  have "(case aabb of None \<Rightarrow> Finite 5
         | Some bbox \<Rightarrow> num_mul rnd (halfExtents_length bbox) (Finite 2)) \<noteq> NaN"
  proof (cases aabb)
    case None
    then show ?thesis by simp
  next
    case (Some bbox)
    with assms(5) \<open>targetDistance s = None\<close> have "halfExtents_length bbox \<noteq> NaN" by simp
    from product_not_NaN [OF assms(2) this, of 2] Some show ?thesis by simp
  qed
  from clamped_product_finite [OF assms(2) this assms(3)] show ?thesis
    by (simp only: handleWheel_first [OF assms(1) None] option.inject)
next
  case (Some td)
  with assms(4) have "td \<noteq> NaN" by simp
  from clamped_product_finite [OF assms(2) this assms(3)] show ?thesis
    by (simp only: handleWheel_step [OF assms(1) Some] option.inject)
qed

lemma handleWheels_snoc:
  "handleWheels rnd (evs @ [ev]) s = handleWheel rnd (fst ev) (snd ev) (handleWheels rnd evs s)"
  by (simp add: handleWheels_def)

lemma handleWheels_range:
  assumes "rounding rnd"
    and "\<forall>bbox. aabb = Some bbox \<longrightarrow> halfExtents_length bbox \<noteq> NaN"
    and "dy \<noteq> NaN" and "\<forall>ev\<in>set evs. snd ev \<noteq> NaN"
  shows "\<exists>d. targetDistance (handleWheels rnd ((aabb, dy) # evs) (initialize s)) = Some (Finite d)
             \<and> 1 / 2 \<le> d \<and> d \<le> 50"
  using assms(4)
proof (induction evs rule: rev_induct)
  case Nil
  have "targetDistance (initialize s) = None" by (simp add: initialize_def)
  with handleWheel_range [OF initialize_inv assms(1,3), of s aabb] assms(2)
  show ?case by (simp add: handleWheels_def)
next
  case (snoc ev evs)
  let ?s = "handleWheels rnd ((aabb, dy) # evs) (initialize s)"
  from snoc obtain d where d: "targetDistance ?s = Some (Finite d)" by auto
  have inv: "wheel_inv ?s" by (rule handleWheels_inv) (rule initialize_inv)
  have "snd ev \<noteq> NaN" using snoc.prems by simp
  from handleWheel_range [OF inv assms(1) this, of "fst ev"] d
  have "\<exists>d. targetDistance (handleWheel rnd (fst ev) (snd ev) ?s) = Some (Finite d)
             \<and> 1 / 2 \<le> d \<and> d \<le> 50" by simp
  then show ?case
    using handleWheels_snoc [of rnd "(aabb, dy) # evs" ev "initialize s"] by simp
qed

text \<open>
  C8, as the claim states it, fails: when the length of the half extents of the
  splat's bounding box is NaN at the first wheel event, the target distance is NaN
  after the first event and after every event that follows, since \<open>Math.max\<close> and
  \<open>Math.min\<close> return NaN for a NaN argument.
\<close>

theorem handleWheel_targetDistance_counterexample:
  "targetDistance
     (handleWheels Finite [(Some nan_bounding_box, Finite 1), (None, Finite 1)]
        (initialize fresh_frame_scene)) = Some NaN"
  by (simp add: handleWheels_def handleWheel_def initialize_def fresh_frame_scene_def
      nan_bounding_box_def Let_def Math_max_def Math_min_def)

text \<open>
  C8, amended. After \<open>initialize\<close>, when the bounding box found at the first wheel
  event, if there is one, has half extents of a length that is not NaN, and
  \<open>deltaY\<close> of every wheel event is not NaN, every invocation of \<open>handleWheel\<close>
  leaves a finite target distance \<open>d\<close> with \<open>0.5 \<le> d \<le> 50\<close>, infinite bounding
  boxes and overflowing products included. When a target distance \<open>td\<close> is there,
  the next one is \<open>td * (1 - delta)\<close> with \<open>delta = -sign(deltaY) * 0.15\<close>, clamped by
  \<open>Math.max(0.5, Math.min(50, ..))\<close>.
\<close>

theorem handleWheel_targetDistance_in_range:
  assumes "rounding rnd"
    and "\<forall>bbox. aabb = Some bbox \<longrightarrow> halfExtents_length bbox \<noteq> NaN"
    and "dy \<noteq> NaN" and "\<forall>ev\<in>set evs. snd ev \<noteq> NaN"
  shows "(\<exists>d. targetDistance (handleWheels rnd ((aabb, dy) # evs) (initialize s)) = Some (Finite d)
             \<and> 1 / 2 \<le> d \<and> d \<le> 50)
       \<and> (\<forall>td. targetDistance (handleWheels rnd ((aabb, dy) # evs) (initialize s)) = Some td \<longrightarrow>
             targetDistance
               (handleWheels rnd (((aabb, dy) # evs) @ [(aabb', dy')]) (initialize s)) =
             Some (Math_max (Finite (1 / 2))
                     (Math_min (Finite 50)
                        (num_mul rnd td
                           (num_sub rnd (Finite 1)
                              (num_mul rnd (num_neg (Math_sign dy')) (Finite (15 / 100))))))))"
proof -
  have inv: "wheel_inv (handleWheels rnd ((aabb, dy) # evs) (initialize s))"
    by (rule handleWheels_inv) (rule initialize_inv)
  show ?thesis
    using handleWheels_range [OF assms] handleWheel_step [OF inv]
    unfolding handleWheels_snoc by simp
qed


theorem handleWheel_targetDistance_in_range_witness:
  "targetDistance
     (handleWheels Finite (((None, Finite 1) # []) @ [(None, Finite 1)])
        (initialize fresh_frame_scene)) = Some (Finite (529 / 80))"
proof -
  have h2: "\<forall>bbox. (None :: bounding_box option) = Some bbox \<longrightarrow> halfExtents_length bbox \<noteq> NaN"
    by simp
  have h3: "Finite 1 \<noteq> NaN" by simp
  have h4: "\<forall>ev\<in>set ([] :: (bounding_box option \<times> number) list). snd ev \<noteq> NaN" by simp
  have a: "targetDistance (handleWheels Finite ((None, Finite 1) # []) (initialize fresh_frame_scene))
             = Some (Finite (23 / 4))"
    by (simp add: handleWheels_def handleWheel_def initialize_def fresh_frame_scene_def Let_def
        Math_max_def Math_min_def)
  note t = handleWheel_targetDistance_in_range
      [OF rounding_Finite h2 h3 h4, of fresh_frame_scene None "Finite 1", THEN conjunct2]
  from t a
  have "targetDistance
          (handleWheels Finite (((None, Finite 1) # []) @ [(None, Finite 1)])
             (initialize fresh_frame_scene)) =
        Some (Math_max (Finite (1 / 2))
                (Math_min (Finite 50)
                   (num_mul Finite (Finite (23 / 4))
                      (num_sub Finite (Finite 1)
                         (num_mul Finite (num_neg (Math_sign (Finite 1))) (Finite (15 / 100)))))))"
    by blast
  then show ?thesis
    by (simp add: Math_max_def Math_min_def)
qed

section \<open>Entering and leaving AR\<close>

lemma xr_on_start_effect:
  assumes "xr_type v = Some ''immersive-ar''"
  shows "camera_clearColor (xr_on_start v) (xr_camera v) = (0, 0, 0, 0)"
    and "clearColor (xr_on_start v) = camera_clearColor v (xr_camera v)"
    and "autoRender (xr_on_start v)"
  using assms by (simp_all add: xr_on_start_def Let_def split: option.splits)

lemma xr_on_start_sky:
  assumes "xr_type v = Some ''immersive-ar''" and "sky v = Some s"
  shows "viewer_sky_type (xr_on_start v) = Some (Some ''none'')"
    and "sky_type s \<noteq> Some ''none'' \<longrightarrow> skyType (xr_on_start v) = sky_type s"
  using assms
  by (simp_all add: xr_on_start_def Let_def viewer_sky_type_def SkyElement_set_type_def
      split: option.splits)

lemma xr_round_trip_camera:
  assumes "xr_type v = Some ''immersive-ar''"
  shows "\<exists>v'. xr_round_trip v = Inr v' \<and> camera_clearColor v' = camera_clearColor v
            \<and> \<not> autoRender v'"
  using assms
  by (auto simp add: xr_round_trip_def xr_on_start_def xr_on_end_def Let_def
      split: option.splits)

lemma xr_round_trip_no_sky:
  assumes "xr_type v = Some ''immersive-ar''" and "\<not> truthy (skyType v)" and "sky v = None"
  shows "\<exists>v'. xr_round_trip v = Inr v' \<and> viewer_sky_type v' = None
            \<and> viewer_sky_type_attribute v' = None \<and> viewer_sky_type v = None
            \<and> \<not> truthy (skyType v')"
  using assms
  by (simp add: xr_round_trip_def xr_on_start_def xr_on_end_def Let_def viewer_sky_type_def
      viewer_sky_type_attribute_def)

lemma xr_round_trip_sky:
  assumes "xr_type v = Some ''immersive-ar''" and "\<not> truthy (skyType v)" and "sky v = Some s"
  shows "\<exists>v'. xr_round_trip v = Inr v'
           \<and> viewer_sky_type v' =
               Some (if sky_type_saved s then sky_type s
                     else if sky_type_attribute s = None then Some ''none'' else None)
           \<and> viewer_sky_type_attribute v' =
               Some (if sky_type_saved s then sky_type_attribute s else None)
           \<and> \<not> truthy (skyType v')"
  using assms
  by (cases "sky_type s"; cases "sky_type_attribute s"; cases "sky_scene s")
     (auto simp add: xr_round_trip_def xr_on_start_def xr_on_end_def Let_def viewer_sky_type_def
      viewer_sky_type_attribute_def sky_type_saved_def
      SkyElement_set_type_def removeAttribute_type_def SkyElement_attributeChangedCallback_def
      truthy_def split: option.splits)

lemma sky_type_survives_iff:
  "sky_type_survives s \<longleftrightarrow>
     (if sky_type_saved s then sky_type s
      else if sky_type_attribute s = None then Some ''none'' else None) = sky_type s"
  by (cases "sky_type s"; cases "sky_type_attribute s")
     (auto simp add: sky_type_survives_def sky_type_saved_def truthy_def)

text \<open>
  C9, as the claim states it, fails: a \<open>pc-sky\<close> element whose markup says
  \<open>type="none"\<close> has the type 'none' before entry; nothing is saved on entry, the
  exit removes the attribute, and after the round trip the attribute is gone and the
  type is null.
\<close>

theorem xr_round_trip_counterexample:
  "map_sum id viewer_sky_type (xr_round_trip (ar_viewer sky_none_by_attribute)) = Inr (Some None)
   \<and> viewer_sky_type (ar_viewer sky_none_by_attribute) = Some (Some ''none'')
   \<and> map_sum id viewer_sky_type_attribute (xr_round_trip (ar_viewer sky_none_by_attribute))
       = Inr (Some None)
   \<and> viewer_sky_type_attribute (ar_viewer sky_none_by_attribute) = Some (Some ''none'')"
  by (simp add: xr_round_trip_def xr_on_start_def xr_on_end_def ar_viewer_def
      sky_none_by_attribute_def viewer_sky_type_def viewer_sky_type_attribute_def truthy_def
      removeAttribute_type_def SkyElement_attributeChangedCallback_def SkyElement_set_type_def
      Let_def)

text \<open>
  C9, amended. In immersive-ar mode, with no sky type left saved from before: entering
  saves the clear colour of the XR camera and sets it to transparent black, leaves a
  \<open>pc-sky\<close> element with the type 'none', saving its type when that was not 'none',
  and sets \<open>autoRender\<close>. Entering and then leaving ends without an error, with the
  clear colour of every camera as before entry, \<open>autoRender\<close> false and no sky type
  left saved. For a \<open>pc-sky\<close> element whose type was saved as a non-empty string, the
  type is assigned back and the \<open>type\<close> attribute is untouched. Otherwise the exit
  removes the \<open>type\<close> attribute: afterwards the element has no \<open>type\<close> attribute, and
  its type is null when it had the attribute and 'none' when it had none. So the sky
  type is as before entry exactly when there is no \<open>pc-sky\<close> element, or its type was a
  non-empty string other than 'none', or was 'none' with no \<open>type\<close> attribute on the
  element, or was null with a \<open>type\<close> attribute on the element.
\<close>

theorem xr_round_trip_restores:
  assumes "xr_type v = Some ''immersive-ar''" and "\<not> truthy (skyType v)"
  shows "camera_clearColor (xr_on_start v) (xr_camera v) = (0, 0, 0, 0)
       \<and> clearColor (xr_on_start v) = camera_clearColor v (xr_camera v)
       \<and> autoRender (xr_on_start v)
       \<and> (\<forall>s. sky v = Some s \<longrightarrow>
             viewer_sky_type (xr_on_start v) = Some (Some ''none'')
             \<and> (sky_type s \<noteq> Some ''none'' \<longrightarrow> skyType (xr_on_start v) = sky_type s))
       \<and> (\<exists>v'. xr_round_trip v = Inr v'
             \<and> camera_clearColor v' = camera_clearColor v
             \<and> \<not> autoRender v'
             \<and> \<not> truthy (skyType v')
             \<and> viewer_sky_type v' =
                 map_option
                   (\<lambda>s. if sky_type_saved s then sky_type s
                        else if sky_type_attribute s = None then Some ''none'' else None)
                   (sky v)
             \<and> viewer_sky_type_attribute v' =
                 map_option (\<lambda>s. if sky_type_saved s then sky_type_attribute s else None) (sky v)
             \<and> (viewer_sky_type v' = viewer_sky_type v \<longleftrightarrow>
                  (case sky v of None \<Rightarrow> True | Some s \<Rightarrow> sky_type_survives s)))"
proof -
  obtain v' where v': "xr_round_trip v = Inr v'" "camera_clearColor v' = camera_clearColor v"
      "\<not> autoRender v'"
    using xr_round_trip_camera [OF assms(1)] by blast
  have "\<not> truthy (skyType v')
      \<and> viewer_sky_type v' =
          map_option
            (\<lambda>s. if sky_type_saved s then sky_type s
                 else if sky_type_attribute s = None then Some ''none'' else None)
            (sky v)
      \<and> viewer_sky_type_attribute v' =
          map_option (\<lambda>s. if sky_type_saved s then sky_type_attribute s else None) (sky v)
      \<and> (viewer_sky_type v' = viewer_sky_type v \<longleftrightarrow>
           (case sky v of None \<Rightarrow> True | Some s \<Rightarrow> sky_type_survives s))"
  proof (cases "sky v")
    case None
    then show ?thesis
      using xr_round_trip_no_sky [OF assms None] v'(1) by simp
  next
    case (Some s)
    have "viewer_sky_type v = Some (sky_type s)"
      by (simp add: viewer_sky_type_def Some)
    then show ?thesis
      using xr_round_trip_sky [OF assms Some] v'(1) Some sky_type_survives_iff [of s] by auto
  qed
  with v' have "\<exists>v'. xr_round_trip v = Inr v'
             \<and> camera_clearColor v' = camera_clearColor v
             \<and> \<not> autoRender v'
             \<and> \<not> truthy (skyType v')
             \<and> viewer_sky_type v' =
                 map_option
                   (\<lambda>s. if sky_type_saved s then sky_type s
                        else if sky_type_attribute s = None then Some ''none'' else None)
                   (sky v)
             \<and> viewer_sky_type_attribute v' =
                 map_option (\<lambda>s. if sky_type_saved s then sky_type_attribute s else None) (sky v)
             \<and> (viewer_sky_type v' = viewer_sky_type v \<longleftrightarrow>
                  (case sky v of None \<Rightarrow> True | Some s \<Rightarrow> sky_type_survives s))"
    by blast
  then show ?thesis
    using xr_on_start_effect [OF assms(1)] xr_on_start_sky [OF assms(1)] by blast
qed

theorem xr_round_trip_restores_witness:
  "map_sum id viewer_sky_type (xr_round_trip (ar_viewer sky_dome)) = Inr (Some (Some ''dome''))
   \<and> map_sum id viewer_sky_type_attribute (xr_round_trip (ar_viewer sky_dome))
       = Inr (Some (Some ''dome''))
   \<and> map_sum id camera_clearColor (xr_round_trip (ar_viewer sky_dome))
       = Inr (camera_clearColor (ar_viewer sky_dome))"
proof -
  have h1: "xr_type (ar_viewer sky_dome) = Some ''immersive-ar''"
    by (simp add: ar_viewer_def)
  have h2: "\<not> truthy (skyType (ar_viewer sky_dome))"
    by (simp add: ar_viewer_def truthy_def)
  have s: "sky_type_saved sky_dome"
    by (simp add: sky_type_saved_def sky_dome_def truthy_def)
  have k: "sky (ar_viewer sky_dome) = Some sky_dome"
    by (simp add: ar_viewer_def)
  obtain v' where v': "xr_round_trip (ar_viewer sky_dome) = Inr v'"
      "camera_clearColor v' = camera_clearColor (ar_viewer sky_dome)"
      "viewer_sky_type v' =
         map_option
           (\<lambda>s. if sky_type_saved s then sky_type s
                else if sky_type_attribute s = None then Some ''none'' else None)
           (sky (ar_viewer sky_dome))"
      "viewer_sky_type_attribute v' =
         map_option (\<lambda>s. if sky_type_saved s then sky_type_attribute s else None)
           (sky (ar_viewer sky_dome))"
    using xr_round_trip_restores [OF h1 h2] by blast
  have "viewer_sky_type v' = Some (Some ''dome'')"
    and "viewer_sky_type_attribute v' = Some (Some ''dome'')"
    using v'(3,4) s by (simp_all add: k) (simp_all add: sky_dome_def)
  then show ?thesis
    using v'(1,2) by simp
qed

section \<open>Parsing vectors and colours\<close>

lemma js_split_no_separator: "sep \<notin> set a \<Longrightarrow> js_split sep a = [a]"
  by (induction a) auto

lemma js_split_at_separator:
  "sep \<notin> set a \<Longrightarrow> js_split sep (a @ sep # rest) = a # js_split sep rest"
  by (induction a) auto

text \<open>
  Three pieces without a space, separated by single spaces, give the vector of the
  three numbers in order.
\<close>

lemma parseVec3_three_numbers:
  assumes "CHR '' '' \<notin> set a" and "CHR '' '' \<notin> set b" and "CHR '' '' \<notin> set c"
  shows "parseVec3 Number (a @ '' '' @ b @ '' '' @ c) =
           Vec3 (Num (Number a)) (Num (Number b)) (Num (Number c))"
  using assms
  by (simp add: parseVec3_def new_Vec3_def js_split_at_separator js_split_no_separator)

lemma CSS_COLORS_values_nonempty: "list_all (\<lambda>kv. snd kv \<noteq> []) CSS_COLORS"
  by (simp add: CSS_COLORS_def)

lemma CSS_COLORS_lookup_nonempty: "map_of CSS_COLORS k = Some hex \<Longrightarrow> hex \<noteq> []"
proof -
  assume "map_of CSS_COLORS k = Some hex"
  then have "(k, hex) \<in> set CSS_COLORS"
    by (rule map_of_SomeD)
  with CSS_COLORS_values_nonempty show "hex \<noteq> []"
    unfolding list_all_iff by fastforce
qed

text \<open>
  For every string whose lower-case form is not the name of a property of
  \<open>Object.prototype\<close>, \<open>parseColor\<close> looks the colour name up first, then takes a
  hex string, then splits into numbers.
\<close>

lemma parseColor_dispatch:
  assumes "toLowerCase v \<notin> set Object_prototype_keys"
  shows "parseColor Number v =
           (case map_of CSS_COLORS (toLowerCase v) of
              Some hex \<Rightarrow> FromString (StringValue hex)
            | None \<Rightarrow>
                if startsWith v ''#'' then FromString (StringValue v)
                else NewColor (map Number (js_split (CHR '' '') v)))"
  using assms
  by (auto simp add: parseColor_def CSS_COLORS_get_def property_truthy_def Let_def
      dest: CSS_COLORS_lookup_nonempty split: option.splits)

text \<open>
  C6 fails on the code at the attribute string 'constructor': it is not a colour
  name and does not start with '#', so the claim has it split on spaces into the
  components of a \<open>Color\<close>; the lookup in the object literal finds the inherited
  \<open>constructor\<close> property, which is truthy, and the code passes that to
  \<open>fromString\<close>.
\<close>

theorem parseColor_constructor:
  "map_of CSS_COLORS ''constructor'' = None
   \<and> \<not> startsWith ''constructor'' ''#''
   \<and> parseColor Number ''constructor'' = FromString (ObjectPrototypeMember ''constructor'')
   \<and> parseColor Number ''constructor'' \<noteq> NewColor (map Number (js_split (CHR '' '') ''constructor''))"
proof -
  have a: "map_of CSS_COLORS ''constructor'' = None"
    by (simp add: CSS_COLORS_def)
  have b: "toLowerCase ''constructor'' = ''constructor''"
    by (simp add: toLowerCase_def)
  have c: "parseColor Number ''constructor'' = FromString (ObjectPrototypeMember ''constructor'')"
    by (simp add: parseColor_def b CSS_COLORS_get_def a Object_prototype_keys_def
        property_truthy_def)
  show ?thesis
    using a c by (simp add: startsWith_def)
qed

section \<open>Connecting a component element\<close>

lemmas connection_defs =
  resume_def addComponent_def addComponent_resumed_def connectedCallback_resumed_def


lemma initComponent_fields:
  assumes "initComponent w = Inr w'"
  shows "el_component w' = el_component w" and "engine_calls w' = engine_calls w"
    and "closestApp w' = closestApp w" and "closestEntity w' = closestEntity w"
    and "app_ready w' = app_ready w" and "entity_ready w' = entity_ready w"
    and "el_componentName w' = el_componentName w" and "kind w' = kind w"
    and "ready w' = ready w" and "dispatched w' = dispatched w"
    and "initialData_throws w' = initialData_throws w"
    and "engine_addComponent w' = engine_addComponent w"
  using assms
  by (auto simp add: initComponent_def split: component_kind.splits option.splits if_splits)




lemma resume_static:
  "closestApp (resume w) = closestApp w \<and> closestEntity (resume w) = closestEntity w
   \<and> kind (resume w) = kind w \<and> el_componentName (resume w) = el_componentName w
   \<and> initialData_throws (resume w) = initialData_throws w
   \<and> engine_addComponent (resume w) = engine_addComponent w"
  by (cases "phase w")
     (auto simp add: connection_defs onReady_def initComponent_fields
       split: option.splits sum.splits)

lemma do_step_static:
  "closestApp (do_step w st) = closestApp w \<and> closestEntity (do_step w st) = closestEntity w
   \<and> kind (do_step w st) = kind w \<and> el_componentName (do_step w st) = el_componentName w
   \<and> initialData_throws (do_step w st) = initialData_throws w
   \<and> engine_addComponent (do_step w st) = engine_addComponent w"
  by (cases st) (auto simp add: resume_static split: option.splits)

lemma run_static:
  "closestApp (run steps w) = closestApp w \<and> closestEntity (run steps w) = closestEntity w
   \<and> kind (run steps w) = kind w \<and> el_componentName (run steps w) = el_componentName w
   \<and> initialData_throws (run steps w) = initialData_throws w
   \<and> engine_addComponent (run steps w) = engine_addComponent w"
  unfolding run_def by (induction steps arbitrary: w) (simp_all add: do_step_static)

lemma run_append: "run (xs @ ys) w = run ys (run xs w)"
  by (simp add: run_def)







lemma entityless_resume: "entityless w \<Longrightarrow> entityless (resume w)"
  by (cases "phase w"; cases "kind w")
     (auto simp add: connection_defs entityless_def onReady_def initComponent_def)

lemma entityless_do_step: "entityless w \<Longrightarrow> entityless (do_step w st)"
proof (cases st)
  case Resume
  assume "entityless w"
  with Resume show ?thesis by (simp add: entityless_resume)
qed (auto simp add: entityless_def split: option.splits)

lemma entityless_run: "entityless w \<Longrightarrow> entityless (run steps w)"
  unfolding run_def by (induction steps arbitrary: w) (simp_all add: entityless_do_step)

lemma entityless_two_resumes:
  assumes "entityless w" and "closestApp w \<longrightarrow> app_ready w"
  shows "phase (resume (resume w)) = Completed \<and> ready (resume (resume w))
         \<and> el_component (resume (resume w)) = None"
  using assms
  by (cases "phase w"; cases "kind w")
     (auto simp add: connection_defs entityless_def onReady_def initComponent_def)

text \<open>
  For every component element other than \<open>pc-element\<close>: with no entity element,
  once the application (when there is one) is ready, two more resumptions complete
  \<open>connectedCallback\<close>, the element is ready and its component is null.
\<close>

lemma connect_without_entity_completes:
  assumes "\<not> closestEntity w" and "kind w \<noteq> Element" and "el_component w = None"
    and "closestApp w \<longrightarrow> app_ready (run steps (connectedCallback w))"
  shows "phase (run (steps @ [Resume, Resume]) (connectedCallback w)) = Completed
       \<and> ready (run (steps @ [Resume, Resume]) (connectedCallback w))
       \<and> el_component (run (steps @ [Resume, Resume]) (connectedCallback w)) = None"
proof -
  let ?w = "run steps (connectedCallback w)"
  have "entityless (connectedCallback w)"
    using assms(1-3) by (simp add: entityless_def connectedCallback_def)
  then have e: "entityless ?w" by (rule entityless_run)
  have "closestApp ?w = closestApp w"
    using run_static [of steps "connectedCallback w"] by (simp add: connectedCallback_def)
  with assms(4) have "closestApp ?w \<longrightarrow> app_ready ?w" by simp
  from entityless_two_resumes [OF e this] show ?thesis
    by (simp add: run_append run_def)
qed

lemma rejected_stays:
  "phase w = Rejected err \<Longrightarrow>
     phase (run steps w) = Rejected err \<and> ready (run steps w) = ready w"
proof (induction steps arbitrary: w)
  case Nil
  then show ?case by (simp add: run_def)
next
  case (Cons st steps)
  have "phase (do_step w st) = Rejected err \<and> ready (do_step w st) = ready w"
    using Cons.prems by (cases st) (auto simp add: connection_defs split: option.splits)
  with Cons.IH [of "do_step w st"] show ?case
    by (simp add: run_def)
qed

text \<open>
  C10 fails on the code for \<open>pc-element\<close>. Connected under a ready application with
  no entity element, its \<open>initComponent\<close> dereferences the null component: the
  promise of \<open>connectedCallback\<close> is rejected with a TypeError and the element is
  never ready, whatever happens afterwards. \<open>pc-scripts\<close>, the other element that
  overrides \<open>initComponent\<close>, checks for the null component and completes.
\<close>

theorem pc_element_without_entity_is_rejected:
  "phase (run [AppOnReady, Resume, Resume]
            (connectedCallback (entityless_connection Element ''element''))) = Rejected TypeError
   \<and> \<not> ready (run ([AppOnReady, Resume, Resume] @ steps)
                 (connectedCallback (entityless_connection Element ''element'')))
   \<and> phase (run [AppOnReady, Resume, Resume]
              (connectedCallback (entityless_connection Script ''script''))) = Completed
   \<and> ready (run [AppOnReady, Resume, Resume]
              (connectedCallback (entityless_connection Script ''script'')))"
proof -
  let ?w = "run [AppOnReady, Resume, Resume]
              (connectedCallback (entityless_connection Element ''element''))"
  have a: "phase ?w = Rejected TypeError" and b: "\<not> ready ?w"
    by (simp_all add: run_def connectedCallback_def entityless_connection_def connection_defs
        initComponent_def)
  have c: "\<not> ready (run steps ?w)"
    using rejected_stays [OF a, of steps] b by simp
  have d: "phase (run [AppOnReady, Resume, Resume]
              (connectedCallback (entityless_connection Script ''script''))) = Completed
         \<and> ready (run [AppOnReady, Resume, Resume]
              (connectedCallback (entityless_connection Script ''script'')))"
    by (simp add: run_def connectedCallback_def entityless_connection_def connection_defs
        initComponent_def onReady_def)
  have c': "\<not> ready (run ([AppOnReady, Resume, Resume] @ steps)
                 (connectedCallback (entityless_connection Element ''element'')))"
    unfolding run_append by (rule c)
  show ?thesis
    using a c' d by blast
qed

section \<open>Building the entity hierarchy\<close>

lemma dropWhile_first: "a \<notin> set us \<Longrightarrow> dropWhile (\<lambda>x. x \<noteq> a) (us @ a # rest) = a # rest"
  by (induction us) auto

lemma before_iff: "before xs a b \<longleftrightarrow> (\<exists>us vs ws. xs = us @ a # vs @ b # ws)"
proof
  assume "before xs a b"
  then have b: "b \<in> set (tl (dropWhile (\<lambda>x. x \<noteq> a) xs))"
    by (simp only: before_def)
  have ne: "dropWhile (\<lambda>x. x \<noteq> a) xs \<noteq> []"
  proof
    assume "dropWhile (\<lambda>x. x \<noteq> a) xs = []"
    then have "tl (dropWhile (\<lambda>x. x \<noteq> a) xs) = []"
      by (simp only: list.sel)
    with b show False
      by (simp only: list.set empty_iff)
  qed
  then have "hd (dropWhile (\<lambda>x. x \<noteq> a) xs) = a"
    using hd_dropWhile [of "\<lambda>x. x \<noteq> a" xs] by blast
  with ne have d: "dropWhile (\<lambda>x. x \<noteq> a) xs = a # tl (dropWhile (\<lambda>x. x \<noteq> a) xs)"
    by (metis list.collapse)
  from b obtain vs ws where "tl (dropWhile (\<lambda>x. x \<noteq> a) xs) = vs @ b # ws"
    by (meson split_list)
  with d have "xs = takeWhile (\<lambda>x. x \<noteq> a) xs @ a # vs @ b # ws"
    by (metis takeWhile_dropWhile_id)
  then show "\<exists>us vs ws. xs = us @ a # vs @ b # ws" by blast
next
  assume "\<exists>us vs ws. xs = us @ a # vs @ b # ws"
  then obtain us vs ws where xs: "xs = us @ a # vs @ b # ws" by blast
  show "before xs a b"
  proof (cases "a \<in> set us")
    case True
    then obtain u1 u2 where us: "us = u1 @ a # u2" "a \<notin> set u1"
      by (meson split_list_first)
    have "dropWhile (\<lambda>x. x \<noteq> a) (u1 @ a # (u2 @ a # vs @ b # ws)) = a # (u2 @ a # vs @ b # ws)"
      using us(2) by (rule dropWhile_first)
    then show ?thesis
      unfolding before_def xs us(1) by simp
  next
    case False
    then have "dropWhile (\<lambda>x. x \<noteq> a) (us @ a # (vs @ b # ws)) = a # (vs @ b # ws)"
      by (rule dropWhile_first)
    then show ?thesis
      unfolding before_def xs by simp
  qed
qed

lemma before_Cons_same: "b \<in> set xs \<Longrightarrow> before (a # xs) a b"
proof -
  assume "b \<in> set xs"
  then obtain vs ws where "xs = vs @ b # ws"
    by (auto simp add: in_set_conv_decomp)
  then have "a # xs = [] @ a # vs @ b # ws" by simp
  then show ?thesis unfolding before_iff by blast
qed

lemma before_Cons: "before xs a b \<Longrightarrow> before (x # xs) a b"
  unfolding before_iff by (metis append_Cons)

lemma before_append1: "before xs a b \<Longrightarrow> before (xs @ ys) a b"
  unfolding before_iff by (metis append.assoc append_Cons)

lemma before_append2: "before ys a b \<Longrightarrow> before (xs @ ys) a b"
  unfolding before_iff by (metis append.assoc)

lemma before_map: "before xs a b \<Longrightarrow> before (map f xs) (f a) (f b)"
  unfolding before_iff by (metis list.simps(9) map_append)

lemma before_filter: "before xs a b \<Longrightarrow> P a \<Longrightarrow> P b \<Longrightarrow> before (filter P xs) a b"
  unfolding before_iff by (metis filter.simps(2) filter_append)

lemma child_paths_heads:
  "p \<in> set (child_paths i cs) \<Longrightarrow> \<exists>j p'. p = j # p' \<and> i \<le> j"
proof (induction cs arbitrary: i)
  case Nil
  then show ?case by simp
next
  case (Cons c cs)
  then show ?case by (fastforce dest: Suc_leD)
qed

lemma paths_before:
  "strict_prefix a b \<Longrightarrow> a \<in> set (paths d) \<Longrightarrow> b \<in> set (paths d)
     \<Longrightarrow> before (paths d) a b"
  and child_paths_before:
  "strict_prefix a b \<Longrightarrow> a \<in> set (child_paths i cs) \<Longrightarrow> b \<in> set (child_paths i cs)
     \<Longrightarrow> before (child_paths i cs) a b"
proof (induction d and i cs arbitrary: a b and a b rule: paths_child_paths.induct)
  case (1 t cs)
  show ?case
  proof (cases a)
    case Nil
    with "1.prems" have "b \<noteq> []" by auto
    with "1.prems" have "b \<in> set (child_paths 0 cs)" by simp
    with Nil show ?thesis by (simp add: before_Cons_same)
  next
    case (Cons j a')
    with "1.prems" have "a \<in> set (child_paths 0 cs)" "b \<in> set (child_paths 0 cs)" "b \<noteq> []"
      by auto
    with "1.IH" "1.prems"(1) show ?thesis by (simp add: before_Cons)
  qed
next
  case (2 i)
  then show ?case by simp
next
  case (3 i c cs)
  from "3.prems"(2) obtain j a' where a: "a = j # a'" "i \<le> j"
    using child_paths_heads [of a i "c # cs"] by blast
  with "3.prems"(1) obtain b' where b: "b = j # b'" "strict_prefix a' b'"
    by (cases b) auto
  show ?case
  proof (cases "j = i")
    case True
    have "a' \<in> set (paths c)" "b' \<in> set (paths c)"
      using "3.prems"(2,3) a b True by (auto dest: child_paths_heads)
    with "3.IH"(1) b(2) have "before (paths c) a' b'" by blast
    then have "before (map ((#) i) (paths c)) a b"
      using a b True before_map [of "paths c" a' b' "(#) i"] by simp
    then show ?thesis by (simp add: before_append1)
  next
    case False
    have "a \<in> set (child_paths (Suc i) cs)" "b \<in> set (child_paths (Suc i) cs)"
      using "3.prems"(2,3) a b False by auto
    with "3.IH"(2) "3.prems"(1) have "before (child_paths (Suc i) cs) a b" by blast
    then show ?thesis by (simp add: before_append2)
  qed
qed

lemma paths_member:
  "node_at p d \<noteq> None \<Longrightarrow> p \<in> set (paths d)"
  and child_paths_member:
  "j < length cs \<Longrightarrow> node_at p (cs ! j) \<noteq> None \<Longrightarrow> (i + j) # p \<in> set (child_paths i cs)"
proof (induction d and i cs arbitrary: p and p j rule: paths_child_paths.induct)
  case (1 t cs)
  show ?case
  proof (cases p)
    case Nil
    then show ?thesis by simp
  next
    case (Cons k p')
    with "1.prems" have "k < length cs" "node_at p' (cs ! k) \<noteq> None"
      by (auto split: if_splits)
    with "1.IH" [of k p'] Cons show ?thesis by simp
  qed
next
  case (2 i)
  then show ?case by simp
next
  case (3 i c cs)
  show ?case
  proof (cases j)
    case 0
    with "3.prems" "3.IH"(1) [of p] show ?thesis by simp
  next
    case (Suc j')
    with "3.prems" "3.IH"(2) [of j' p] show ?thesis by simp
  qed
qed

lemma paths_distinct: "distinct (paths d)"
  and child_paths_distinct: "distinct (child_paths i cs)"
proof (induction d and i cs rule: paths_child_paths.induct)
  case (1 t cs)
  then show ?case by (auto dest: child_paths_heads)
next
  case (2 i)
  then show ?case by simp
next
  case (3 i c cs)
  then show ?case
    by (auto simp add: distinct_map inj_on_def dest: child_paths_heads)
qed

lemma closest_Some:
  "closest tag d p = Some q \<Longrightarrow>
     has_tag tag d q \<and> prefix q p \<and> (\<forall>r. prefix r p \<longrightarrow> has_tag tag d r \<longrightarrow> prefix r q)"
proof (induction tag d p rule: closest.induct)
  case (1 tag d p)
  show ?case
  proof (cases "has_tag tag d p")
    case True
    with "1.prems" show ?thesis by (simp add: closest.simps [of tag d p])
  next
    case False
    with "1.prems" have ne: "p \<noteq> []" and c: "closest tag d (butlast p) = Some q"
      by (auto simp add: closest.simps [of tag d p] split: if_splits)
    from "1.IH" [OF False ne c] have ih: "has_tag tag d q" "prefix q (butlast p)"
      "\<forall>r. prefix r (butlast p) \<longrightarrow> has_tag tag d r \<longrightarrow> prefix r q" by blast+
    have p: "p = butlast p @ [last p]" using ne by simp
    have "prefix r (butlast p)" if "prefix r p" "has_tag tag d r" for r
    proof -
      from that False have "r \<noteq> p" by auto
      with that(1) p show ?thesis by (metis prefix_snoc)
    qed
    with ih show ?thesis
      by (metis p prefix_order.trans prefix_snoc)
  qed
qed

lemma closest_None:
  "closest tag d p = None \<Longrightarrow> prefix r p \<Longrightarrow> \<not> has_tag tag d r"
proof (induction tag d p rule: closest.induct)
  case (1 tag d p)
  show ?case
  proof (cases "has_tag tag d p")
    case True
    with "1.prems" show ?thesis by (simp add: closest.simps [of tag d p])
  next
    case False
    show ?thesis
    proof (cases "p = []")
      case True
      with "1.prems" False show ?thesis by simp
    next
      case ne: False
      with "1.prems" False have c: "closest tag d (butlast p) = None"
        by (simp add: closest.simps [of tag d p])
      have p: "p = butlast p @ [last p]" using ne by simp
      show ?thesis
      proof (cases "r = p")
        case True
        with False show ?thesis by simp
      next
        case False
        with "1.prems"(2) p have "prefix r (butlast p)" by (metis prefix_snoc)
        with "1.IH" [OF \<open>\<not> has_tag tag d p\<close> ne c] show ?thesis by simp
      qed
    qed
  qed
qed

lemma create_all:
  assumes "distinct ps"
  shows "trace (foldl (\<lambda>s p. createEntity p s) s ps) =
           trace s @ map (\<lambda>(p, e). Created p e)
                       (zip ps [next_entity s..<next_entity s + length ps])
       \<and> next_entity (foldl (\<lambda>s p. createEntity p s) s ps) = next_entity s + length ps
       \<and> hierarchyReady (foldl (\<lambda>s p. createEntity p s) s ps) = hierarchyReady s
       \<and> (\<forall>i<length ps. entities (foldl (\<lambda>s p. createEntity p s) s ps) (ps ! i)
              = Some (next_entity s + i))
       \<and> (\<forall>q. q \<notin> set ps \<longrightarrow>
              entities (foldl (\<lambda>s p. createEntity p s) s ps) q = entities s q)"
  using assms
proof (induction ps arbitrary: s)
  case Nil
  then show ?case by simp
next
  case (Cons p ps)
  let ?s = "createEntity p s"
  have d: "distinct ps" and np: "p \<notin> set ps" using Cons.prems by simp_all
  note ih = Cons.IH [OF d, of ?s]
  have n: "next_entity ?s = Suc (next_entity s)" and t: "trace ?s = trace s @ [Created p (next_entity s)]"
    and h: "hierarchyReady ?s = hierarchyReady s"
    and e: "entities ?s = (entities s)(p \<mapsto> next_entity s)"
    by (simp_all add: createEntity_def)
  have u: "[next_entity s..<next_entity s + length (p # ps)] =
             next_entity s # [Suc (next_entity s)..<Suc (next_entity s) + length ps]"
    using upt_conv_Cons [of "next_entity s" "next_entity s + length (p # ps)"] by simp
  have nth: "entities (foldl (\<lambda>s p. createEntity p s) ?s ps) ((p # ps) ! i) = Some (next_entity s + i)"
    if "i < length (p # ps)" for i
  proof (cases i)
    case 0
    with ih np e show ?thesis by simp
  next
    case (Suc k)
    with that ih n show ?thesis by simp
  qed
  have other: "entities (foldl (\<lambda>s p. createEntity p s) ?s ps) q = entities s q"
    if "q \<notin> set (p # ps)" for q
    using that ih e by simp
  show ?case
    using ih nth other unfolding u by (simp add: n t h)
qed

lemma build_all:
  "entities (foldl (\<lambda>s p. buildHierarchy d p s) s ps) = entities s
   \<and> next_entity (foldl (\<lambda>s p. buildHierarchy d p s) s ps) = next_entity s
   \<and> hierarchyReady (foldl (\<lambda>s p. buildHierarchy d p s) s ps) = hierarchyReady s
   \<and> trace (foldl (\<lambda>s p. buildHierarchy d p s) s ps) =
       trace s @ concat (map (\<lambda>p. case entities s p of
                                    None \<Rightarrow> []
                                  | Some e \<Rightarrow> [AddChild (parent_node d (entities s) p) e, Ready p]) ps)"
proof (induction ps arbitrary: s)
  case Nil
  then show ?case by simp
next
  case (Cons p ps)
  have e: "entities (buildHierarchy d p s) = entities s"
    and n: "next_entity (buildHierarchy d p s) = next_entity s"
    and h: "hierarchyReady (buildHierarchy d p s) = hierarchyReady s"
    and t: "trace (buildHierarchy d p s) =
              trace s @ (case entities s p of
                           None \<Rightarrow> []
                         | Some e \<Rightarrow> [AddChild (parent_node d (entities s) p) e, Ready p])"
    by (simp_all add: buildHierarchy_def split: option.splits)
  show ?case
    using Cons.IH [of "buildHierarchy d p s", unfolded e n h t] by simp
qed

lemma attach_events_zip:
  assumes "length ids = length ps" and "\<forall>i<length ps. m (ps ! i) = Some (ids ! i)"
  shows "map (\<lambda>p. case m p of None \<Rightarrow> [] | Some e \<Rightarrow> [AddChild (f p) e, Ready p]) ps
         = map (\<lambda>(p, e). [AddChild (f p) e, Ready p]) (zip ps ids)"
  using assms by (auto intro!: nth_equalityI)

lemma ready_order_append: "ready_order (xs @ ys) = ready_order xs @ ready_order ys"
  by (induction xs rule: ready_order.induct) simp_all

lemma ready_order_created:
  "ready_order (map (\<lambda>(p, e). Created p e) zs) = []"
  by (induction zs) auto

lemma ready_order_attached:
  "ready_order (concat (map (\<lambda>(p, e). [AddChild (f p) e, Ready p]) zs)) = map fst zs"
  by (induction zs) auto

lemma node_at_append:
  "node_at (a @ q) d = (case node_at a d of None \<Rightarrow> None | Some sub \<Rightarrow> node_at q sub)"
  by (induction a arbitrary: d) (auto split: dom.splits)

lemma has_tag_append: "node_at a d = Some sub \<Longrightarrow> has_tag tag d (a @ q) = has_tag tag sub q"
  by (simp add: has_tag_def node_at_append)

lemma querySelectorAll_app:
  "node_at app d = Some (Elem t cs) \<Longrightarrow>
     querySelectorAll tag d app =
       map ((@) app) (filter (has_tag tag (Elem t cs)) (child_paths 0 cs))"
  by (simp add: querySelectorAll_def)

lemma querySelectorAll_distinct:
  assumes "node_at app d = Some (Elem t cs)"
  shows "distinct (querySelectorAll tag d app)"
  unfolding querySelectorAll_app [OF assms]
  by (simp add: distinct_map child_paths_distinct inj_on_def)

lemma querySelectorAll_below:
  assumes "node_at app d = Some (Elem t cs)" and "p \<in> set (querySelectorAll tag d app)"
  shows "strict_prefix app p"
proof -
  from assms(2) obtain p' where "p = app @ p'" "p' \<in> set (child_paths 0 cs)"
    unfolding querySelectorAll_app [OF assms(1)] by auto
  moreover from this(2) have "p' \<noteq> []" by (auto dest: child_paths_heads)
  ultimately show ?thesis by (simp add: strict_prefix_def)
qed

lemma querySelectorAll_before:
  assumes "node_at app d = Some (Elem t cs)"
    and "a \<in> set (querySelectorAll tag d app)"
    and "b \<in> set (querySelectorAll tag d app)" and "strict_prefix a b"
  shows "before (querySelectorAll tag d app) a b"
proof -
  from assms(2) obtain a' where a: "a = app @ a'" "a' \<in> set (child_paths 0 cs)"
      "has_tag tag (Elem t cs) a'"
    unfolding querySelectorAll_app [OF assms(1)] by auto
  from assms(3) obtain b' where b: "b = app @ b'" "b' \<in> set (child_paths 0 cs)"
      "has_tag tag (Elem t cs) b'"
    unfolding querySelectorAll_app [OF assms(1)] by auto
  from assms(4) have "strict_prefix a' b'"
    by (simp add: a(1) b(1) strict_prefix_def)
  with a(2) b(2) have "before (child_paths 0 cs) a' b'"
    by (simp add: child_paths_before)
  then have "before (filter (has_tag tag (Elem t cs)) (child_paths 0 cs)) a' b'"
    using a(3) b(3) by (simp add: before_filter)
  then have "before (map ((@) app) (filter (has_tag tag (Elem t cs)) (child_paths 0 cs)))
               (app @ a') (app @ b')"
    by (rule before_map)
  then show ?thesis
    unfolding querySelectorAll_app [OF assms(1)] a(1) b(1) .
qed

lemma has_tag_node: "has_tag tag d p \<Longrightarrow> node_at p d \<noteq> None"
  by (auto simp add: has_tag_def split: option.splits)

lemma querySelectorAll_member:
  assumes "node_at app d = Some (Elem t cs)"
    and "has_tag tag d q" and "prefix app q" and "q \<noteq> app"
  shows "q \<in> set (querySelectorAll tag d app)"
proof -
  from assms(3,4) obtain q' where q: "q = app @ q'" "q' \<noteq> []"
    by (auto simp add: prefix_def)
  from assms(2) have tag: "has_tag tag (Elem t cs) q'"
    by (simp add: q(1) has_tag_append [OF assms(1)])
  then have "q' \<in> set (paths (Elem t cs))"
    by (intro paths_member has_tag_node)
  with q(2) have "q' \<in> set (child_paths 0 cs)" by simp
  with tag show ?thesis
    unfolding querySelectorAll_app [OF assms(1)] q(1) by simp
qed

lemma strict_prefix_snoc_iff: "strict_prefix r (ys @ [y]) \<longleftrightarrow> prefix r ys"
  by (auto simp add: strict_prefix_def dest: prefix_length_le)

lemma closestEntityElement_None:
  assumes "closestEntityElement d p = None" and "strict_prefix r p"
  shows "\<not> has_tag ''pc-entity'' d r"
proof -
  from assms(2) have ne: "p \<noteq> []" by auto
  with assms(1) have c: "closest ''pc-entity'' d (butlast p) = None"
    by (simp add: closestEntityElement_def)
  have p: "p = butlast p @ [last p]" using ne by simp
  from assms(2) have "prefix r (butlast p)"
    using strict_prefix_snoc_iff [of r "butlast p" "last p"] p by simp
  with c show ?thesis by (rule closest_None)
qed

lemma closestEntityElement_Some:
  assumes "closestEntityElement d p = Some q"
  shows "has_tag ''pc-entity'' d q" and "strict_prefix q p"
    and "\<forall>r. strict_prefix r p \<longrightarrow> has_tag ''pc-entity'' d r \<longrightarrow> prefix r q"
proof -
  from assms have ne: "p \<noteq> []" and c: "closest ''pc-entity'' d (butlast p) = Some q"
    by (auto simp add: closestEntityElement_def split: if_splits)
  have p: "p = butlast p @ [last p]" using ne by simp
  have sp: "strict_prefix r p \<longleftrightarrow> prefix r (butlast p)" for r
    using strict_prefix_snoc_iff [of r "butlast p" "last p"] p by simp
  from closest_Some [OF c] sp show "has_tag ''pc-entity'' d q" "strict_prefix q p"
    "\<forall>r. strict_prefix r p \<longrightarrow> has_tag ''pc-entity'' d r \<longrightarrow> prefix r q"
    by blast+
qed

text \<open>
  C5. In \<open>AppElement.connectedCallback\<close> of a \<open>pc-app\<close> element, with \<open>els\<close> the
  \<open>pc-entity\<close> elements of its subtree in document order:
  \<^item> the trace is extended by one entity creation per element of \<open>els\<close>, in order,
    followed by one \<open>addChild\<close> and one \<open>_onReady\<close> per element of \<open>els\<close>, in
    order: every entity is created before any is attached;
  \<^item> every element is handled once and holds its own engine entity;
  \<^item> the readiness promises resolve in document order, so that of an entity element
    resolves before that of any entity element nested inside it;
  \<^item> an element whose closest entity element (the nearest proper ancestor with the
    tag \<open>pc-entity\<close>, anywhere in the document) lies in the subtree is attached to the
    engine entity created for that element; one whose closest entity element lies
    above the \<open>pc-app\<close> element is attached to the engine entity that element holds,
    and to the application root when it holds none; one with no entity ancestor is
    attached to the application root;
  \<^item> the hierarchy is marked ready.
\<close>

theorem AppElement_connectedCallback_hierarchy:
  fixes cs :: "dom list" and s :: app_state
  assumes app: "node_at app d = Some (Elem ''pc-app'' cs)"
  defines "els \<equiv> querySelectorAll ''pc-entity'' d app"
  defines "ids \<equiv> [next_entity s..<next_entity s + length els]"
  defines "s' \<equiv> AppElement_connectedCallback d app s"
  shows "trace s' =
           trace s @ map (\<lambda>(p, e). Created p e) (zip els ids)
             @ concat (map (\<lambda>(p, e). [AddChild (parent_node d (entities s') p) e, Ready p])
                          (zip els ids))
       \<and> distinct els
       \<and> (\<forall>i<length els. entities s' (els ! i) = Some (next_entity s + i))
       \<and> ready_order (trace s') = ready_order (trace s) @ els
       \<and> (\<forall>a\<in>set els. \<forall>b\<in>set els. strict_prefix a b \<longrightarrow>
             before (ready_order (trace s')) a b)
       \<and> (\<forall>p\<in>set els.
             case closestEntityElement d p of
               None \<Rightarrow>
                 parent_node d (entities s') p = AppRoot
                 \<and> (\<forall>r. strict_prefix r p \<longrightarrow> \<not> has_tag ''pc-entity'' d r)
             | Some q \<Rightarrow>
                 strict_prefix q p \<and> has_tag ''pc-entity'' d q
                 \<and> (\<forall>r. strict_prefix r p \<longrightarrow> has_tag ''pc-entity'' d r \<longrightarrow> prefix r q)
                 \<and> (if q \<in> set els
                     then \<exists>e. entities s' q = Some e
                              \<and> parent_node d (entities s') p = EntityNode e
                     else strict_prefix q app \<and> entities s' q = entities s q
                          \<and> parent_node d (entities s') p =
                              (case entities s q of
                                 None \<Rightarrow> AppRoot
                               | Some e \<Rightarrow> EntityNode e)))
       \<and> hierarchyReady s'"
proof -
  let ?s1 = "foldl (\<lambda>s p. createEntity p s) s els"
  let ?s2 = "foldl (\<lambda>s p. buildHierarchy d p s) ?s1 els"
  have dist: "distinct els"
    unfolding els_def by (rule querySelectorAll_distinct [OF app])
  note c = create_all [OF dist, of s]
  note b = build_all [of d ?s1 els]
  have s': "s' = ?s2\<lparr>hierarchyReady := True\<rparr>"
    by (simp add: s'_def AppElement_connectedCallback_def Let_def els_def)
  have ent: "entities s' = entities ?s1"
    using b by (simp add: s')
  have len: "length ids = length els"
    by (simp add: ids_def)
  have nth: "\<forall>i<length els. entities ?s1 (els ! i) = Some (ids ! i)"
    using c by (simp add: ids_def)
  have tr: "trace s' =
           trace s @ map (\<lambda>(p, e). Created p e) (zip els ids)
             @ concat (map (\<lambda>(p, e). [AddChild (parent_node d (entities s') p) e, Ready p])
                          (zip els ids))"
    using b c attach_events_zip [OF len nth, of "parent_node d (entities ?s1)"]
    by (simp add: s' ent ids_def)
  have ro: "ready_order (trace s') = ready_order (trace s) @ els"
    unfolding tr by (simp add: ready_order_append ready_order_created ready_order_attached len)
  have "\<forall>a\<in>set els. \<forall>b\<in>set els. strict_prefix a b \<longrightarrow> before els a b"
    unfolding els_def by (simp add: querySelectorAll_before [OF app])
  then have bef: "\<forall>a\<in>set els. \<forall>b\<in>set els. strict_prefix a b \<longrightarrow>
             before (ready_order (trace s')) a b"
    unfolding ro by (simp add: before_append2)
  have some: "\<exists>e. entities s' q = Some e" if "q \<in> set els" for q
    using that nth ent by (metis in_set_conv_nth)
  have other: "entities s' q = entities s q" if "q \<notin> set els" for q
    using that c ent by simp
  have no_tag: "\<not> has_tag ''pc-entity'' d app"
    using app by (simp add: has_tag_def)
  have par: "case closestEntityElement d p of
               None \<Rightarrow>
                 parent_node d (entities s') p = AppRoot
                 \<and> (\<forall>r. strict_prefix r p \<longrightarrow> \<not> has_tag ''pc-entity'' d r)
             | Some q \<Rightarrow>
                 strict_prefix q p \<and> has_tag ''pc-entity'' d q
                 \<and> (\<forall>r. strict_prefix r p \<longrightarrow> has_tag ''pc-entity'' d r \<longrightarrow> prefix r q)
                 \<and> (if q \<in> set els
                     then \<exists>e. entities s' q = Some e
                              \<and> parent_node d (entities s') p = EntityNode e
                     else strict_prefix q app \<and> entities s' q = entities s q
                          \<and> parent_node d (entities s') p =
                              (case entities s q of
                                 None \<Rightarrow> AppRoot
                               | Some e \<Rightarrow> EntityNode e))" if p: "p \<in> set els" for p
  proof (cases "closestEntityElement d p")
    case None
    then show ?thesis
      by (simp add: parent_node_def closestEntityElement_None)
  next
    case (Some q)
    note q = closestEntityElement_Some [OF Some]
    have below: "strict_prefix app p"
      using p unfolding els_def by (rule querySelectorAll_below [OF app])
    show ?thesis
    proof (cases "q \<in> set els")
      case True
      from some [OF True] obtain e where e: "entities s' q = Some e" ..
      then have "parent_node d (entities s') p = EntityNode e"
        by (simp add: parent_node_def Some)
      with Some q True e show ?thesis by simp
    next
      case False
      have "\<not> prefix app q"
      proof
        assume pre: "prefix app q"
        from q(1) no_tag have "q \<noteq> app" by auto
        with pre q(1) have "q \<in> set els"
          unfolding els_def by (intro querySelectorAll_member [OF app])
        with False show False by simp
      qed
      moreover from q(2) below have "prefix q app \<or> prefix app q"
        by (intro prefix_same_cases [of q p app]) (simp_all add: strict_prefix_def)
      ultimately have sp: "strict_prefix q app"
        by (auto simp add: strict_prefix_def)
      have "parent_node d (entities s') p =
              (case entities s q of None \<Rightarrow> AppRoot | Some e \<Rightarrow> EntityNode e)"
        by (simp add: parent_node_def Some other [OF False])
      with Some q False sp other [OF False] show ?thesis by simp
    qed
  qed
  show ?thesis
    using tr dist c ent ro bef par by (simp add: s')
qed

theorem AppElement_connectedCallback_hierarchy_witness:
  "ready_order (trace (AppElement_connectedCallback example_document [0, 0] fresh_app_state))
     = [ [0, 0, 1], [0, 0, 1, 1, 0], [0, 0, 2] ]
   \<and> before
        (ready_order (trace (AppElement_connectedCallback example_document [0, 0] fresh_app_state)))
        [0, 0, 1] [0, 0, 1, 1, 0]
   \<and> parent_node example_document
        (entities (AppElement_connectedCallback example_document [0, 0] fresh_app_state))
        [0, 0, 1, 1, 0] = EntityNode 10
   \<and> parent_node example_document
        (entities (AppElement_connectedCallback example_document [0, 0] fresh_app_state))
        [0, 0, 2] = EntityNode 3"
proof -
  let ?s = "AppElement_connectedCallback example_document [0, 0] fresh_app_state"
  have h: "node_at [0, 0] example_document = Some (Elem ''pc-app'' example_children)"
    by (simp add: example_document_def)
  have els: "querySelectorAll ''pc-entity'' example_document [0, 0]
               = [ [0, 0, 1], [0, 0, 1, 1, 0], [0, 0, 2] ]"
    unfolding querySelectorAll_def h by (simp add: example_children_def has_tag_def)
  have c1: "closestEntityElement example_document [0, 0, 1, 1, 0] = Some [0, 0, 1]"
    by (simp add: closestEntityElement_def closest.simps example_document_def
        example_children_def has_tag_def)
  have c2: "closestEntityElement example_document [0, 0, 2] = Some [0]"
    by (simp add: closestEntityElement_def closest.simps example_document_def
        example_children_def has_tag_def)
  note t = AppElement_connectedCallback_hierarchy
      [OF h, where s = fresh_app_state, unfolded els]
  note t3 = t [THEN conjunct2, THEN conjunct2, THEN conjunct1]
  note t4 = t [THEN conjunct2, THEN conjunct2, THEN conjunct2, THEN conjunct1]
  note t5 = t [THEN conjunct2, THEN conjunct2, THEN conjunct2, THEN conjunct2, THEN conjunct1]
  note t6 = t [THEN conjunct2, THEN conjunct2, THEN conjunct2, THEN conjunct2, THEN conjunct2,
      THEN conjunct1]
  have r: "ready_order (trace ?s) = [ [0, 0, 1], [0, 0, 1, 1, 0], [0, 0, 2] ]"
    using t4 by (simp add: fresh_app_state_def)
  have e: "entities ?s [0, 0, 1] = Some 10"
    using t3 [rule_format, of 0] by (simp add: fresh_app_state_def)
  have b: "before (ready_order (trace ?s)) [0, 0, 1] [0, 0, 1, 1, 0]"
    using t5 [rule_format, of "[0, 0, 1]" "[0, 0, 1, 1, 0]"] by simp
  have p1: "parent_node example_document (entities ?s) [0, 0, 1, 1, 0] = EntityNode 10"
    using t6 [rule_format, of "[0, 0, 1, 1, 0]"] c1 e by auto
  have p2: "parent_node example_document (entities ?s) [0, 0, 2] = EntityNode 3"
    using t6 [rule_format, of "[0, 0, 2]"] c2 by (simp add: fresh_app_state_def)
  show ?thesis
    using r b p1 p2 by simp
qed

end
